theory Spec2Isabelle
  imports Complex_Main "HOL-Library.Multiset" "HOL-Library.AList"
begin

unbundle bit_operations_syntax

section \<open>Data model (types/index.ts)\<close>

text \<open>
  The TypeScript interfaces become records, the string-literal unions become datatypes.
  JavaScript numbers that hold counts, round numbers and points are modelled as \<open>int\<close>;
  the probability factors of the player selector are modelled as \<open>real\<close> (the doubles of
  the source idealised as exact reals). The \<open>Date\<close> fields (\<open>createdAt\<close>,
  \<open>lastActivity\<close>, \<open>startedAt\<close>, \<open>finishedAt\<close>) are left out: no operation reads them.

  A plain JavaScript object used as a dictionary (\<open>playerAnswers\<close>, \<open>votes\<close>, ...) is an
  association list in insertion order with distinct keys; \<open>obj[k] = v\<close> is
  \<open>AList.update k v obj\<close> (overwrite in place, or append), \<open>obj[k]\<close> is \<open>map_of obj k\<close>
  and \<open>Object.entries(obj)\<close> is the list itself (the keys are UUIDs, never array indices).

  Player objects are shared: the very same object sits in \<open>lobby.players\<close>, in a team list
  and in \<open>round.selectedPlayers\<close>. The lobby therefore carries a store \<open>heap\<close> of Player
  objects, and the lists hold addresses (indices into the store). Objects are never freed.
\<close>

type_synonym addr = nat

datatype Team = Blue | Red

datatype LobbyStatus = StatusWaiting | StatusPlaying | StatusFinished

datatype RoundStatus = RoundAnswering | RoundVoting | RoundFinished

datatype GamePhase = PhaseWaiting | PhaseWriting | PhaseVoting | PhaseResults | PhaseFinished

datatype OptionOrigin = OriginCorrect | OriginIncorrect | OriginPlayer string

record Player =
  player_id :: string
  player_name :: string
  player_team :: "Team option"
  isHost :: bool
  socketId :: string
  score :: int
  isReady :: bool
  isConnected :: bool

record GameSettings =
  maxRounds :: int
  answerTimeSeconds :: int
  voteTimeSeconds :: int
  pointsCorrectAnswer :: int
  pointsConfuseOpponent :: int

record RoundOption =
  option_id :: string
  option_text :: string
  origin :: OptionOrigin
  position :: nat

record BullRound =
  round_number :: int
  question :: string
  correctAnswer :: string
  incorrectAnswer :: string
  suggestedFormat :: "string option"
  selected_blue :: addr
  selected_red :: addr
  playerAnswers :: "(string \<times> string) list"
  playersReady :: "(string \<times> bool) list"
  options :: "RoundOption list"
  votes :: "(string \<times> string) list"
  round_status :: RoundStatus
  pointsAwarded :: "(string \<times> int) list"

record BullGameState =
  currentRound :: int
  totalRounds :: int
  phase :: GamePhase
  rounds :: "BullRound list"
  scores_blue :: int
  scores_red :: int
  winner :: "Team option"

record Lobby =
  code :: string
  hostId :: string
  hostSocketId :: string
  players :: "addr list"
  teams_blue :: "addr list"
  teams_red :: "addr list"
  status :: LobbyStatus
  gameState :: "BullGameState option"
  settings :: GameSettings
  heap :: "Player list"

record RoundResult =
  res_roundNumber :: int
  res_question :: string
  correctOptionId :: string
  res_votes :: "(string \<times> string \<times> bool) list"
  res_pointsAwarded :: "(string \<times> int) list"
  newScores_blue :: int
  newScores_red :: int
  confusionResults :: "(string \<times> string list) list"

subsection \<open>Errors (utils/constants.ts, GameError, LobbyError)\<close>

datatype ErrorCode =
    LOBBY_NOT_FOUND | LOBBY_FULL | PLAYER_NOT_FOUND | GAME_ALREADY_STARTED | NOT_HOST
  | INVALID_TEAM | INVALID_PHASE | ANSWER_TOO_LONG | ANSWER_TOO_SHORT | ALREADY_SUBMITTED
  | TIME_EXPIRED | VALIDATION_ERROR | SERVER_FULL

text \<open>
  \<open>GameError\<close> and \<open>LobbyError\<close> carry a code (the message is dropped); the plain \<open>Error\<close>
  thrown by the player selector is \<open>NoEligiblePlayers\<close> (from \<open>selectPlayersForRound\<close>)
  or \<open>NoPlayersInTeam\<close> (from \<open>selectPlayerFromTeam\<close>) with the team it names.
\<close>

datatype error =
    GameError ErrorCode | LobbyError ErrorCode | NoEligiblePlayers Team | NoPlayersInTeam Team

definition DEFAULT_GAME_SETTINGS :: GameSettings where
  "DEFAULT_GAME_SETTINGS =
     \<lparr>maxRounds = 5, answerTimeSeconds = 30, voteTimeSeconds = 20,
      pointsCorrectAnswer = 100, pointsConfuseOpponent = 150\<rparr>"

definition ROUND_OPTIONS_COUNT :: nat where
  "ROUND_OPTIONS_COUNT = 4"

section \<open>GameService (services/gameService.ts)\<close>

definition findPlayer :: "Lobby \<Rightarrow> string \<Rightarrow> addr option" where
  \<comment> \<open>\<open>lobby.players.find((p) => p.id === playerId)\<close>\<close>
  "findPlayer lobby playerId =
     List.find (\<lambda>a. player_id (heap lobby ! a) = playerId) (players lobby)"

definition getCurrentRound :: "BullGameState \<Rightarrow> BullRound option" where
  "getCurrentRound gs = List.find (\<lambda>r. round_number r = currentRound gs) (rounds gs)"

fun updateFirst :: "('a \<Rightarrow> bool) \<Rightarrow> ('a \<Rightarrow> 'a) \<Rightarrow> 'a list \<Rightarrow> 'a list" where
  "updateFirst P f [] = []"
| "updateFirst P f (x # xs) = (if P x then f x # xs else x # updateFirst P f xs)"

definition setCurrentRound :: "BullGameState \<Rightarrow> BullRound \<Rightarrow> BullGameState" where
  \<comment> \<open>writes through the reference that \<open>getCurrentRound\<close> returned\<close>
  "setCurrentRound gs r' =
     gs\<lparr>rounds := updateFirst (\<lambda>r. round_number r = currentRound gs) (\<lambda>_. r') (rounds gs)\<rparr>"

subsection \<open>isGameFinished, finishGame\<close>

definition isGameFinished :: "Lobby \<Rightarrow> bool" where
  "isGameFinished lobby =
     (case gameState lobby of
        None \<Rightarrow> False
      | Some gs \<Rightarrow> currentRound gs \<ge> maxRounds (settings lobby))"

definition finishGame :: "Lobby \<Rightarrow> error + ((Team \<times> int \<times> int) \<times> Lobby)" where
  "finishGame lobby =
     (case gameState lobby of
        None \<Rightarrow> Inl (GameError INVALID_PHASE)
      | Some gs \<Rightarrow>
          let blue = scores_blue gs; red = scores_red gs;
              w = (if blue > red then Blue else if red > blue then Red else Blue);
              gs' = gs\<lparr>phase := PhaseFinished, winner := Some w\<rparr>
          in Inr ((w, blue, red), lobby\<lparr>gameState := Some gs', status := StatusFinished\<rparr>))"

subsection \<open>allVotesSubmitted\<close>

definition allVotesSubmitted :: "Lobby \<Rightarrow> bool" where
  "allVotesSubmitted lobby =
     (case gameState lobby of
        None \<Rightarrow> False
      | Some gs \<Rightarrow>
          (case getCurrentRound gs of
             None \<Rightarrow> False
           | Some r \<Rightarrow>
               let connectedPlayers = filter (\<lambda>a. isConnected (heap lobby ! a)) (players lobby);
                   eligibleVoters = connectedPlayers;
                   votedCount = length (votes r)
               in votedCount \<ge> length eligibleVoters))"


subsection \<open>submitAnswer\<close>

text \<open>
  \<open>String.prototype.trim\<close> and \<open>toLowerCase\<close> on code units below 256: the white space
  removed is tab, line feed, vertical tab, form feed, carriage return, space and the
  no-break space; the letters \<open>A\<close>..\<open>Z\<close> and the upper-case letters \<open>0xC0\<close>..\<open>0xDE\<close>
  (without the multiplication sign \<open>0xD7\<close>) are mapped to their lower-case letters, and
  every other character is kept.
\<close>

definition isWhitespace :: "char \<Rightarrow> bool" where
  "isWhitespace c =
     (c \<in> set [CHR 0x09, CHR 0x0A, CHR 0x0B, CHR 0x0C, CHR 0x0D, CHR '' '', CHR 0xA0])"

definition upperCaseLetters :: string where
  "upperCaseLetters = ''ABCDEFGHIJKLMNOPQRSTUVWXYZ'' @
     [CHR 0xC0, CHR 0xC1, CHR 0xC2, CHR 0xC3, CHR 0xC4, CHR 0xC5, CHR 0xC6, CHR 0xC7, CHR 0xC8, CHR 0xC9, CHR 0xCA, CHR 0xCB, CHR 0xCC, CHR 0xCD, CHR 0xCE, CHR 0xCF, CHR 0xD0, CHR 0xD1, CHR 0xD2, CHR 0xD3, CHR 0xD4, CHR 0xD5, CHR 0xD6, CHR 0xD8, CHR 0xD9, CHR 0xDA, CHR 0xDB, CHR 0xDC, CHR 0xDD, CHR 0xDE]"

definition lowerCaseLetters :: string where
  "lowerCaseLetters = ''abcdefghijklmnopqrstuvwxyz'' @
     [CHR 0xE0, CHR 0xE1, CHR 0xE2, CHR 0xE3, CHR 0xE4, CHR 0xE5, CHR 0xE6, CHR 0xE7, CHR 0xE8, CHR 0xE9, CHR 0xEA, CHR 0xEB, CHR 0xEC, CHR 0xED, CHR 0xEE, CHR 0xEF, CHR 0xF0, CHR 0xF1, CHR 0xF2, CHR 0xF3, CHR 0xF4, CHR 0xF5, CHR 0xF6, CHR 0xF8, CHR 0xF9, CHR 0xFA, CHR 0xFB, CHR 0xFC, CHR 0xFD, CHR 0xFE]"

definition trim :: "string \<Rightarrow> string" where
  "trim s = rev (dropWhile isWhitespace (rev (dropWhile isWhitespace s)))"

definition toLowerChar :: "char \<Rightarrow> char" where
  "toLowerChar c =
     (case map_of (zip upperCaseLetters lowerCaseLetters) c of
        Some l \<Rightarrow> l
      | None \<Rightarrow> c)"

definition toLowerCase :: "string \<Rightarrow> string" where
  "toLowerCase s = map toLowerChar s"

definition truthy :: "string option \<Rightarrow> bool" where
  \<comment> \<open>a looked-up string in a condition: \<open>undefined\<close> and the empty string are falsy\<close>
  "truthy v = (case v of None \<Rightarrow> False | Some s \<Rightarrow> s \<noteq> [])"

definition submitAnswer :: "Lobby \<Rightarrow> string \<Rightarrow> string \<Rightarrow> error + Lobby" where
  "submitAnswer lobby playerId answer =
     (case gameState lobby of
        None \<Rightarrow> Inl (GameError INVALID_PHASE)
      | Some gs \<Rightarrow>
          if phase gs \<noteq> PhaseWriting then Inl (GameError INVALID_PHASE)
          else (case getCurrentRound gs of
             None \<Rightarrow> Inl (GameError INVALID_PHASE)
           | Some cr \<Rightarrow>
               if truthy (map_of (playerAnswers cr) playerId)
               then Inl (GameError ALREADY_SUBMITTED)
               else
                 let isSelectedPlayer =
                       (player_id (heap lobby ! selected_blue cr) = playerId
                        \<or> player_id (heap lobby ! selected_red cr) = playerId)
                 in if \<not> isSelectedPlayer then Inl (GameError INVALID_PHASE)
                 else
                   let trimmedAnswer = trim answer;
                       correct = toLowerCase (correctAnswer cr);
                       incorrect = toLowerCase (incorrectAnswer cr);
                       userAnswer = toLowerCase trimmedAnswer
                   in if userAnswer = correct then Inl (GameError VALIDATION_ERROR)
                   else if userAnswer = incorrect then Inl (GameError VALIDATION_ERROR)
                   else if length trimmedAnswer = 0 then Inl (GameError VALIDATION_ERROR)
                   else Inr (lobby\<lparr>gameState := Some (setCurrentRound gs
                          (cr\<lparr>playerAnswers :=
                                AList.update playerId trimmedAnswer (playerAnswers cr)\<rparr>))\<rparr>)))"

subsection \<open>Randomness (Math.random) and utils/helpers.ts\<close>

text \<open>
  \<open>Math.random()\<close> is modelled by a sequence of future draws: a call returns the head and
  leaves the rest. The documented contract of \<open>Math.random\<close>, a value in \<open>[0, 1)\<close>, is
  the predicate \<open>unitDraws\<close>.
\<close>

type_synonym rng = "nat \<Rightarrow> real"

definition random :: "rng \<Rightarrow> real \<times> rng" where
  "random rnd = (rnd 0, \<lambda>n. rnd (Suc n))"

definition unitDraws :: "rng \<Rightarrow> bool" where
  "unitDraws rnd = (\<forall>n. 0 \<le> rnd n \<and> rnd n < 1)"

definition hexDigit :: "int \<Rightarrow> char" where
  \<comment> \<open>\<open>v.toString(16)\<close> for \<open>0 \<le> v < 16\<close>\<close>
  "hexDigit v = ''0123456789abcdef'' ! nat v"

fun replaceXY :: "string \<Rightarrow> rng \<Rightarrow> string \<times> rng" where
  "replaceXY [] rnd = ([], rnd)"
| "replaceXY (c # cs) rnd =
     (if c = CHR ''x'' \<or> c = CHR ''y'' then
        let (u, rnd') = random rnd;
            r = \<lfloor>u * 16\<rfloor>;
            v = (if c = CHR ''x'' then r else (r AND 3) OR 8);
            (rest, rnd'') = replaceXY cs rnd'
        in (hexDigit v # rest, rnd'')
      else
        let (rest, rnd') = replaceXY cs rnd in (c # rest, rnd'))"

definition generateUUID :: "rng \<Rightarrow> string \<times> rng" where
  "generateUUID rnd = replaceXY ''xxxxxxxx-xxxx-4xxx-yxxx-xxxxxxxxxxxx'' rnd"

text \<open>
  \<open>shuffleArray\<close>: the loop runs \<open>i\<close> from \<open>length - 1\<close> down to \<open>1\<close>, draws
  \<open>j = floor(random * (i + 1))\<close> and swaps the elements at \<open>i\<close> and \<open>j\<close>.
\<close>

fun shuffleFrom :: "nat \<Rightarrow> 'a list \<Rightarrow> rng \<Rightarrow> 'a list \<times> rng" where
  "shuffleFrom 0 shuffled rnd = (shuffled, rnd)"
| "shuffleFrom (Suc k) shuffled rnd =
     (let i = Suc k;
          (u, rnd') = random rnd;
          j = nat \<lfloor>u * real (i + 1)\<rfloor>
      in shuffleFrom k (shuffled[i := shuffled ! j, j := shuffled ! i]) rnd')"

definition shuffleArray :: "'a list \<Rightarrow> rng \<Rightarrow> 'a list \<times> rng" where
  "shuffleArray array rnd = shuffleFrom (length array - 1) array rnd"

subsection \<open>prepareVotingOptions\<close>

fun addPlayerOptions ::
  "(string \<times> string) list \<Rightarrow> RoundOption list \<Rightarrow> rng \<Rightarrow> RoundOption list \<times> rng" where
  "addPlayerOptions [] opts rnd = (opts, rnd)"
| "addPlayerOptions ((playerId, answer) # rest) opts rnd =
     (let (i, rnd') = generateUUID rnd
      in addPlayerOptions rest
           (opts @ [\<lparr>option_id = i, option_text = answer, origin = OriginPlayer playerId,
                     position = 0\<rparr>]) rnd')"

definition dummyText :: "nat \<Rightarrow> string" where
  \<comment> \<open>\<open>dummyAnswers[options.length - 2] || 'Respuesta placeholder'\<close>\<close>
  "dummyText len =
     (let dummyAnswers = [''Respuesta placeholder 1'', ''Respuesta placeholder 2'',
                          ''Respuesta placeholder 3''];
          idx = int len - 2
      in if 0 \<le> idx \<and> idx < int (length dummyAnswers) then dummyAnswers ! nat idx
         else ''Respuesta placeholder'')"

function addDummyOptions :: "RoundOption list \<Rightarrow> rng \<Rightarrow> RoundOption list \<times> rng" where
  "addDummyOptions opts rnd =
     (if length opts < ROUND_OPTIONS_COUNT then
        addDummyOptions
          (opts @ [\<lparr>option_id = fst (generateUUID rnd), option_text = dummyText (length opts),
                    origin = OriginIncorrect, position = 0\<rparr>])
          (snd (generateUUID rnd))
      else (opts, rnd))"
  by pat_completeness auto
termination
  by (relation "measure (\<lambda>(opts, rnd). ROUND_OPTIONS_COUNT - length opts)") auto

declare addDummyOptions.simps [simp del]

definition assembleOptions :: "BullRound \<Rightarrow> rng \<Rightarrow> RoundOption list \<times> rng" where
  \<comment> \<open>the options array of \<open>prepareVotingOptions\<close> before \<open>slice\<close> and \<open>shuffleArray\<close>\<close>
  "assembleOptions cr rnd =
     (let (i1, rnd1) = generateUUID rnd;
          options1 = [\<lparr>option_id = i1, option_text = correctAnswer cr,
                       origin = OriginCorrect, position = 0\<rparr>];
          (i2, rnd2) = generateUUID rnd1;
          options2 = options1 @ [\<lparr>option_id = i2, option_text = incorrectAnswer cr,
                                  origin = OriginIncorrect, position = 0\<rparr>];
          (options3, rnd3) = addPlayerOptions (playerAnswers cr) options2 rnd2
      in addDummyOptions options3 rnd3)"

definition assignPositions :: "RoundOption list \<Rightarrow> RoundOption list" where
  \<comment> \<open>\<open>finalOptions.forEach((option, index) => { option.position = index + 1 })\<close>\<close>
  "assignPositions opts =
     map (\<lambda>(index, opt). opt\<lparr>position := index + 1\<rparr>) (enumerate 0 opts)"

definition prepareVotingOptions ::
  "Lobby \<Rightarrow> rng \<Rightarrow> error + ((RoundOption list \<times> Lobby) \<times> rng)" where
  "prepareVotingOptions lobby rnd =
     (case gameState lobby of
        None \<Rightarrow> Inl (GameError INVALID_PHASE)
      | Some gs \<Rightarrow>
          (case getCurrentRound gs of
             None \<Rightarrow> Inl (GameError INVALID_PHASE)
           | Some cr \<Rightarrow>
               let (opts, rnd1) = assembleOptions cr rnd;
                   (shuffled, rnd2) = shuffleArray (take ROUND_OPTIONS_COUNT opts) rnd1;
                   finalOptions = assignPositions shuffled;
                   gs' = (setCurrentRound gs (cr\<lparr>options := finalOptions\<rparr>))
                           \<lparr>phase := PhaseVoting\<rparr>
               in Inr ((finalOptions, lobby\<lparr>gameState := Some gs'\<rparr>), rnd2)))"

definition optionContent :: "RoundOption \<Rightarrow> string \<times> OptionOrigin" where
  \<comment> \<open>what an option shows and where it comes from, without its id and position\<close>
  "optionContent x = (option_text x, origin x)"

section \<open>PlayerSelector (utils/playerSelector.ts)\<close>

text \<open>
  \<open>participationHistory\<close> is a JavaScript \<open>Map\<close>: an association list in insertion order,
  \<open>set\<close> is \<open>AList.update\<close>, \<open>get\<close> is \<open>map_of\<close>, \<open>values()\<close> is \<open>map snd\<close>. The selector
  receives the team lists as references to Player objects, read through the lobby's store.
\<close>

record PlayerParticipation =
  pp_playerId :: string
  lastRoundPlayed :: int
  timesPlayed :: int
  factor :: real

record PlayerSelector =
  participationHistory :: "(string \<times> PlayerParticipation) list"
  sel_currentRound :: int

definition getAverageTimesPlayed :: "PlayerSelector \<Rightarrow> real" where
  "getAverageTimesPlayed sel =
     (let allParticipations = map snd (participationHistory sel);
          totalTimes = (\<Sum>p \<leftarrow> allParticipations. timesPlayed p)
      in real_of_int totalTimes / real (length allParticipations))"

definition calculatePlayerFactor :: "PlayerSelector \<Rightarrow> PlayerParticipation \<Rightarrow> real" where
  "calculatePlayerFactor sel participation =
     (if lastRoundPlayed participation = -1 then 2.0
      else
        let roundsSinceLastPlay = sel_currentRound sel - lastRoundPlayed participation;
            recencyFactor = min 2.0 (1.0 + real_of_int roundsSinceLastPlay * 0.2);
            avgTimesPlayed = getAverageTimesPlayed sel;
            frequencyRatio = real_of_int (timesPlayed participation) / max avgTimesPlayed 1;
            frequencyFactor = max 0.1 (1.0 - (frequencyRatio - 1) * 0.3)
        in recencyFactor * frequencyFactor)"

definition normalizeFactors :: "PlayerSelector \<Rightarrow> PlayerSelector" where
  "normalizeFactors sel =
     (let allParticipations = map snd (participationHistory sel);
          totalFactor = (\<Sum>p \<leftarrow> allParticipations. factor p)
      in if totalFactor > 0 then
           let normalizer = real (length allParticipations) / totalFactor
           in sel\<lparr>participationHistory :=
                  map (\<lambda>(k, p). (k, p\<lparr>factor := max 0.1 (factor p * normalizer)\<rparr>))
                    (participationHistory sel)\<rparr>
         else sel)"

definition updateFactors :: "PlayerSelector \<Rightarrow> PlayerSelector" where
  "updateFactors sel =
     (if sel_currentRound sel = 0 then
        sel\<lparr>participationHistory :=
              map (\<lambda>(k, p). (k, p\<lparr>factor := 1.0\<rparr>)) (participationHistory sel)\<rparr>
      else
        normalizeFactors
          (sel\<lparr>participationHistory :=
                 map (\<lambda>(k, p). (k, p\<lparr>factor := calculatePlayerFactor sel p\<rparr>))
                   (participationHistory sel)\<rparr>))"

definition initialize :: "Player list \<Rightarrow> addr list \<Rightarrow> addr list \<Rightarrow> PlayerSelector" where
  "initialize objs bluePlayers redPlayers =
     updateFactors
       \<lparr>participationHistory =
          foldl (\<lambda>h a. AList.update (player_id (objs ! a))
                   \<lparr>pp_playerId = player_id (objs ! a), lastRoundPlayed = -1,
                    timesPlayed = 0, factor = 1.0\<rparr> h)
            [] (bluePlayers @ redPlayers),
        sel_currentRound = 0\<rparr>"

definition updatePlayerParticipation :: "string \<Rightarrow> PlayerSelector \<Rightarrow> PlayerSelector" where
  "updatePlayerParticipation playerId sel =
     (case map_of (participationHistory sel) playerId of
        None \<Rightarrow> sel
      | Some participation \<Rightarrow>
          sel\<lparr>participationHistory :=
                AList.update playerId
                  (participation\<lparr>lastRoundPlayed := sel_currentRound sel,
                                 timesPlayed := timesPlayed participation + 1\<rparr>)
                  (participationHistory sel)\<rparr>)"

fun roulette :: "real \<Rightarrow> real \<Rightarrow> (addr \<times> real \<times> real) list \<Rightarrow> addr option" where
  \<comment> \<open>the \<open>for (const prob of probabilities)\<close> loop with its running \<open>accumulator\<close>\<close>
  "roulette r accumulator [] = None"
| "roulette r accumulator ((player, f, probability) # rest) =
     (let accumulator' = accumulator + probability
      in if r \<le> accumulator' then Some player else roulette r accumulator' rest)"

definition selectPlayerFromTeam ::
  "Player list \<Rightarrow> PlayerSelector \<Rightarrow> addr list \<Rightarrow> Team \<Rightarrow> rng \<Rightarrow> (error + addr) \<times> rng" where
  "selectPlayerFromTeam objs sel plrs team rnd =
     (if length plrs = 0 then (Inl (NoPlayersInTeam team), rnd)
      else if length plrs = 1 then (Inr (plrs ! 0), rnd)
      else
        let playerFactors =
              map (\<lambda>a. (a, case map_of (participationHistory sel) (player_id (objs ! a)) of
                           None \<Rightarrow> 1.0
                         | Some p \<Rightarrow> if factor p \<noteq> 0 then factor p else 1.0)) plrs;
            totalFactor = (\<Sum>pf \<leftarrow> playerFactors. snd pf);
            probabilities = map (\<lambda>(a, f). (a, f, f / totalFactor)) playerFactors;
            (r, rnd') = random rnd
        in (case roulette r 0 probabilities of
              Some player \<Rightarrow> (Inr player, rnd')
            | None \<Rightarrow> (Inr (fst (last probabilities)), rnd')))"

definition selectPlayersForRound ::
  "Player list \<Rightarrow> addr list \<Rightarrow> addr list \<Rightarrow> string option \<Rightarrow> PlayerSelector \<Rightarrow> rng
     \<Rightarrow> (error + (addr \<times> addr)) \<times> PlayerSelector \<times> rng" where
  "selectPlayersForRound objs bluePlayers redPlayers hostId_opt sel rnd =
     (let sel1 = sel\<lparr>sel_currentRound := sel_currentRound sel + 1\<rparr>;
          eligibleBluePlayers =
            (if truthy hostId_opt then filter (\<lambda>a. Some (player_id (objs ! a)) \<noteq> hostId_opt) bluePlayers
             else bluePlayers);
          eligibleRedPlayers =
            (if truthy hostId_opt then filter (\<lambda>a. Some (player_id (objs ! a)) \<noteq> hostId_opt) redPlayers
             else redPlayers)
      in if length eligibleBluePlayers = 0 then (Inl (NoEligiblePlayers Blue), sel1, rnd)
         else if length eligibleRedPlayers = 0 then (Inl (NoEligiblePlayers Red), sel1, rnd)
         else
           (case selectPlayerFromTeam objs sel1 eligibleBluePlayers Blue rnd of
              (Inl e, rnd1) \<Rightarrow> (Inl e, sel1, rnd1)
            | (Inr bluePlayer, rnd1) \<Rightarrow>
                (case selectPlayerFromTeam objs sel1 eligibleRedPlayers Red rnd1 of
                   (Inl e, rnd2) \<Rightarrow> (Inl e, sel1, rnd2)
                 | (Inr redPlayer, rnd2) \<Rightarrow>
                     let sel2 = updatePlayerParticipation (player_id (objs ! bluePlayer)) sel1;
                         sel3 = updatePlayerParticipation (player_id (objs ! redPlayer)) sel2;
                         sel4 = updateFactors sel3
                     in (Inr (bluePlayer, redPlayer), sel4, rnd2))))"

section \<open>GameService: starting a game and a round\<close>

text \<open>
  Strings are lists of UTF-16 code units; every character of the question table is below
  256, so it fits a \<open>char\<close> (\<open>CHR 0xBF\<close> is the inverted question mark, \<open>CHR 0xF1\<close> the
  letter n with tilde, \<open>CHR 0x22\<close> the double quote).
\<close>

record QuestionData =
  q_question :: string
  q_correctAnswer :: string
  q_incorrectAnswer :: string
  q_suggestedFormat :: string

definition SAMPLE_QUESTIONS :: "QuestionData list" where
  "SAMPLE_QUESTIONS = [
     \<lparr>q_question = [CHR 0xBF] @ ''Qu'' @ [CHR 0xE9] @ '' apodo ten'' @ [CHR 0xED] @ ''a Fabrizio cuando chico?'',
      q_correctAnswer = ''Fay'',
      q_incorrectAnswer = ''Caballero'',
      q_suggestedFormat = ''Escribe el apodo (ej: '' @ [CHR 0x22] @ ''Fay'' @ [CHR 0x22] @ '')''\<rparr>,
     \<lparr>q_question = [CHR 0xBF] @ ''A qu'' @ [CHR 0xE9] @ '' edad tom'' @ [CHR 0xF3] @ '' por primera vez Fabrizio?'',
      q_correctAnswer = ''18'',
      q_incorrectAnswer = ''16'',
      q_suggestedFormat = ''Solo el n'' @ [CHR 0xFA] @ ''mero (ej: '' @ [CHR 0x22] @ ''18'' @ [CHR 0x22] @ '')''\<rparr>,
     \<lparr>q_question = [CHR 0xBF] @ ''Cu'' @ [CHR 0xE1] @ ''l es el segundo nombre de Fabrizio?'',
      q_correctAnswer = ''Giordano'',
      q_incorrectAnswer = ''Lorenzo'',
      q_suggestedFormat = ''Solo el nombre (ej: '' @ [CHR 0x22] @ ''Giordano'' @ [CHR 0x22] @ '')''\<rparr>,
     \<lparr>q_question = [CHR 0xBF] @ ''C'' @ [CHR 0xF3] @ ''mo se llama el abuelo de Fabrizio?'',
      q_correctAnswer = ''Francisco'',
      q_incorrectAnswer = ''Giordano'',
      q_suggestedFormat = ''Solo el nombre (ej: '' @ [CHR 0x22] @ ''Francisco'' @ [CHR 0x22] @ '')''\<rparr>,
     \<lparr>q_question = [CHR 0xBF] @ ''A qu'' @ [CHR 0xE9] @ '' edad sac'' @ [CHR 0xF3] @ '' la licencia de conducir Fabrizio?'',
      q_correctAnswer = ''24'',
      q_incorrectAnswer = ''19'',
      q_suggestedFormat = ''Solo el n'' @ [CHR 0xFA] @ ''mero (ej: '' @ [CHR 0x22] @ ''24'' @ [CHR 0x22] @ '')''\<rparr>,
     \<lparr>q_question = [CHR 0xBF] @ ''Cu'' @ [CHR 0xE1] @ ''l es la comida favorita de Fabrizio?'',
      q_correctAnswer = ''Lasa'' @ [CHR 0xF1] @ ''a'',
      q_incorrectAnswer = ''Pastel de choclo'',
      q_suggestedFormat = ''Nombre del plato (ej: '' @ [CHR 0x22] @ ''Lasa'' @ [CHR 0xF1] @ ''a'' @ [CHR 0x22] @ '')''\<rparr>,
     \<lparr>q_question = [CHR 0xBF] @ ''En qu'' @ [CHR 0xE9] @ '' comuna naci'' @ [CHR 0xF3] @ '' Fabrizio?'',
      q_correctAnswer = ''Providencia'',
      q_incorrectAnswer = ''Recoleta'',
      q_suggestedFormat = ''Nombre de la comuna (ej: '' @ [CHR 0x22] @ ''Providencia'' @ [CHR 0x22] @ '')''\<rparr>,
     \<lparr>q_question = [CHR 0xBF] @ ''Cu'' @ [CHR 0xE1] @ ''ntas veces ha viajado en avi'' @ [CHR 0xF3] @ ''n Fabrizio?'',
      q_correctAnswer = ''0'',
      q_incorrectAnswer = ''2'',
      q_suggestedFormat = ''Solo el n'' @ [CHR 0xFA] @ ''mero (ej: '' @ [CHR 0x22] @ ''0'' @ [CHR 0x22] @ '')''\<rparr>]"

definition questionFor :: "int \<Rightarrow> QuestionData" where
  \<comment> \<open>\<open>SAMPLE_QUESTIONS[questionIndex] || SAMPLE_QUESTIONS[SAMPLE_QUESTIONS.length - 1]\<close>\<close>
  "questionFor roundNumber =
     (let questionIndex = roundNumber - 1
      in if 0 \<le> questionIndex \<and> questionIndex < int (length SAMPLE_QUESTIONS)
         then SAMPLE_QUESTIONS ! nat questionIndex
         else SAMPLE_QUESTIONS ! (length SAMPLE_QUESTIONS - 1))"

text \<open>
  The service object holds a \<open>PlayerSelector\<close>; the operations that use it take it as an
  argument and return it. A result is paired with the state after the call, also when the
  call throws, so that what a failed call has changed stays visible.
\<close>

definition startGame ::
  "Lobby \<Rightarrow> PlayerSelector \<Rightarrow> (error + BullGameState) \<times> Lobby \<times> PlayerSelector" where
  "startGame lobby sel =
     (if status lobby \<noteq> StatusWaiting then (Inl (GameError GAME_ALREADY_STARTED), lobby, sel)
      else if length (teams_blue lobby) = 0 \<or> length (teams_red lobby) = 0
      then (Inl (GameError VALIDATION_ERROR), lobby, sel)
      else
        let gs = \<lparr>currentRound = 1, totalRounds = maxRounds (settings lobby),
                  phase = PhaseWaiting, rounds = [], scores_blue = 0, scores_red = 0,
                  winner = None\<rparr>;
            sel' = initialize (heap lobby) (teams_blue lobby) (teams_red lobby)
        in (Inr gs, lobby\<lparr>gameState := Some gs, status := StatusPlaying\<rparr>, sel'))"

definition startRound ::
  "Lobby \<Rightarrow> int \<Rightarrow> PlayerSelector \<Rightarrow> rng
     \<Rightarrow> (error + BullRound) \<times> Lobby \<times> PlayerSelector \<times> rng" where
  "startRound lobby roundNumber sel rnd =
     (case gameState lobby of
        None \<Rightarrow> (Inl (GameError INVALID_PHASE), lobby, sel, rnd)
      | Some gs \<Rightarrow>
          if roundNumber > maxRounds (settings lobby)
          then (Inl (GameError VALIDATION_ERROR), lobby, sel, rnd)
          else
            let questionData = questionFor roundNumber
            in (case selectPlayersForRound (heap lobby) (teams_blue lobby) (teams_red lobby)
                       (Some (hostId lobby)) sel rnd of
                  (Inl e, sel', rnd') \<Rightarrow> (Inl e, lobby, sel', rnd')
                | (Inr (bluePlayer, redPlayer), sel', rnd') \<Rightarrow>
                    let round =
                          \<lparr>round_number = roundNumber,
                           question = q_question questionData,
                           correctAnswer = q_correctAnswer questionData,
                           incorrectAnswer = q_incorrectAnswer questionData,
                           suggestedFormat = Some (q_suggestedFormat questionData),
                           selected_blue = bluePlayer, selected_red = redPlayer,
                           playerAnswers = [], playersReady = [], options = [], votes = [],
                           round_status = RoundAnswering, pointsAwarded = []\<rparr>;
                        gs' = gs\<lparr>rounds := rounds gs @ [round], currentRound := roundNumber,
                                 phase := PhaseWriting\<rparr>
                    in (Inr round, lobby\<lparr>gameState := Some gs'\<rparr>, sel', rnd')))"

subsection \<open>The participation factor as the specification words it\<close>

text \<open>
  Written after the specification (section 4.1), to be compared with \<open>updateFactors\<close>:
  the average of \<open>timesPlayed\<close> across the roster, the factor before normalisation, and
  the normalised factor \<open>max(0.1, factor \<times> rosterSize / \<Sigma>factors)\<close>.
\<close>

definition spec_averageTimesPlayed :: "PlayerParticipation list \<Rightarrow> real" where
  "spec_averageTimesPlayed roster =
     real_of_int (\<Sum>p \<leftarrow> roster. timesPlayed p) / real (length roster)"

definition spec_rawFactor :: "int \<Rightarrow> PlayerParticipation list \<Rightarrow> PlayerParticipation \<Rightarrow> real" where
  "spec_rawFactor r roster p =
     (if lastRoundPlayed p = -1 then 2
      else min 2 (1 + 0.2 * real_of_int (r - lastRoundPlayed p))
           * max 0.1 (1 - 0.3 * (real_of_int (timesPlayed p)
                                   / max (spec_averageTimesPlayed roster) 1 - 1)))"

definition spec_factor :: "int \<Rightarrow> PlayerParticipation list \<Rightarrow> PlayerParticipation \<Rightarrow> real" where
  "spec_factor r roster p =
     max 0.1 (spec_rawFactor r roster p * real (length roster)
              / (\<Sum>q \<leftarrow> roster. spec_rawFactor r roster q))"

definition sameHistory :: "PlayerParticipation \<Rightarrow> PlayerParticipation \<Rightarrow> bool" where
  \<comment> \<open>two records that differ at most in their factor\<close>
  "sameHistory p q \<longleftrightarrow> lastRoundPlayed p = lastRoundPlayed q \<and> timesPlayed p = timesPlayed q"

subsection \<open>calculateRoundResults\<close>

text \<open>
  The two loops of \<open>calculateRoundResults\<close> update three things as they go: the Player
  objects (their scores, in the lobby's store), \<open>currentRound.pointsAwarded\<close> and the
  \<open>result\<close> object. One iteration takes this triple to the next one.
\<close>

type_synonym scoring = "Lobby \<times> (string \<times> int) list \<times> RoundResult"

definition addToTeam :: "Team option \<Rightarrow> int \<Rightarrow> RoundResult \<Rightarrow> RoundResult" where
  \<comment> \<open>\<open>if (player.team) { result.newScores[player.team] += points }\<close>\<close>
  "addToTeam t points result =
     (case t of
        None \<Rightarrow> result
      | Some Blue \<Rightarrow> result\<lparr>newScores_blue := newScores_blue result + points\<rparr>
      | Some Red \<Rightarrow> result\<lparr>newScores_red := newScores_red result + points\<rparr>)"

definition orZero :: "int option \<Rightarrow> int" where
  \<comment> \<open>\<open>x || 0\<close> for a looked-up number\<close>
  "orZero x = (case x of None \<Rightarrow> 0 | Some v \<Rightarrow> v)"

fun processVote :: "BullRound \<Rightarrow> RoundOption \<Rightarrow> scoring \<Rightarrow> string \<times> string \<Rightarrow> scoring" where
  "processVote cr correctOption (lobby, roundPoints, result) (playerId, optionId) =
     (case findPlayer lobby playerId of
        None \<Rightarrow> (lobby, roundPoints, result)
      | Some player \<Rightarrow>
          (case List.find (\<lambda>x. option_id x = optionId) (options cr) of
             None \<Rightarrow> (lobby, roundPoints, result)
           | Some votedOption \<Rightarrow>
               let isCorrect = (optionId = option_id correctOption);
                   pointsEarned = (if isCorrect then 0 + pointsCorrectAnswer (settings lobby)
                                   else 0);
                   result1 = result
                     \<lparr>res_votes := AList.update playerId (optionId, isCorrect) (res_votes result),
                      res_pointsAwarded :=
                        AList.update playerId pointsEarned (res_pointsAwarded result)\<rparr>;
                   roundPoints1 = AList.update playerId pointsEarned roundPoints;
                   p = heap lobby ! player;
                   lobby1 = lobby\<lparr>heap := (heap lobby)
                              [player := p\<lparr>score := score p + pointsEarned\<rparr>]\<rparr>
               in (lobby1, roundPoints1, addToTeam (player_team p) pointsEarned result1)))"

definition votersForThisOption ::
  "Lobby \<Rightarrow> BullRound \<Rightarrow> RoundOption \<Rightarrow> string \<Rightarrow> addr \<Rightarrow> string list" where
  "votersForThisOption lobby cr opt authorId author =
     filter (\<lambda>voterId.
               if voterId = authorId then False
               else (case findPlayer lobby voterId of
                       None \<Rightarrow> False
                     | Some voter \<Rightarrow>
                         player_team (heap lobby ! voter) \<noteq> None
                         \<and> player_team (heap lobby ! voter) \<noteq> player_team (heap lobby ! author)))
       (map fst (filter (\<lambda>(voterId, votedOptionId). votedOptionId = option_id opt) (votes cr)))"

fun processOption :: "BullRound \<Rightarrow> scoring \<Rightarrow> RoundOption \<Rightarrow> scoring" where
  "processOption cr (lobby, roundPoints, result) opt =
     (case origin opt of
        OriginPlayer authorId \<Rightarrow>
          (case findPlayer lobby authorId of
             None \<Rightarrow> (lobby, roundPoints, result)
           | Some author \<Rightarrow>
               let voters = votersForThisOption lobby cr opt authorId author
               in if length voters > 0 then
                    let confusionPoints =
                          int (length voters) * pointsConfuseOpponent (settings lobby);
                        result1 = result
                          \<lparr>res_pointsAwarded :=
                             AList.update authorId
                               (orZero (map_of (res_pointsAwarded result) authorId)
                                + confusionPoints)
                               (res_pointsAwarded result)\<rparr>;
                        roundPoints1 =
                          AList.update authorId
                            (orZero (map_of roundPoints authorId) + confusionPoints) roundPoints;
                        a = heap lobby ! author;
                        lobby1 = lobby\<lparr>heap := (heap lobby)
                                   [author := a\<lparr>score := score a + confusionPoints\<rparr>]\<rparr>;
                        result2 = addToTeam (player_team a) confusionPoints result1
                    in (lobby1, roundPoints1,
                        result2\<lparr>confusionResults :=
                                  AList.update authorId voters (confusionResults result2)\<rparr>)
                  else (lobby, roundPoints, result))
      | _ \<Rightarrow> (lobby, roundPoints, result))"

definition initialResult :: "BullGameState \<Rightarrow> BullRound \<Rightarrow> RoundOption \<Rightarrow> RoundResult" where
  \<comment> \<open>the \<open>result\<close> object as it is created, with a copy of the game's scores\<close>
  "initialResult gs cr correctOption =
     \<lparr>res_roundNumber = round_number cr, res_question = question cr,
      correctOptionId = option_id correctOption, res_votes = [], res_pointsAwarded = [],
      newScores_blue = scores_blue gs, newScores_red = scores_red gs, confusionResults = []\<rparr>"

definition scoringLoops :: "Lobby \<Rightarrow> BullGameState \<Rightarrow> BullRound \<Rightarrow> RoundOption \<Rightarrow> scoring" where
  \<comment> \<open>the loop over \<open>Object.entries(currentRound.votes)\<close>, then the loop over
      \<open>currentRound.options\<close>\<close>
  "scoringLoops lobby gs cr correctOption =
     foldl (processOption cr)
       (foldl (processVote cr correctOption)
          (lobby, pointsAwarded cr, initialResult gs cr correctOption) (votes cr))
       (options cr)"

definition calculateRoundResults :: "Lobby \<Rightarrow> error + (RoundResult \<times> Lobby)" where
  "calculateRoundResults lobby =
     (case gameState lobby of
        None \<Rightarrow> Inl (GameError INVALID_PHASE)
      | Some gs \<Rightarrow>
          (case getCurrentRound gs of
             None \<Rightarrow> Inl (GameError INVALID_PHASE)
           | Some cr \<Rightarrow>
               (case List.find (\<lambda>x. origin x = OriginCorrect) (options cr) of
                  None \<Rightarrow> Inl (GameError VALIDATION_ERROR)
                | Some correctOption \<Rightarrow>
                    let (lobby2, roundPoints2, result2) =
                          scoringLoops lobby gs cr correctOption;
                        cr' = cr\<lparr>pointsAwarded := roundPoints2, round_status := RoundFinished\<rparr>;
                        gs' = (setCurrentRound gs cr')
                                \<lparr>scores_blue := newScores_blue result2,
                                 scores_red := newScores_red result2,
                                 phase := PhaseResults\<rparr>
                    in Inr (result2, lobby2\<lparr>gameState := Some gs'\<rparr>))))"

subsection \<open>What a round's votes and options are worth\<close>

text \<open>
  Read off the lobby as it is before \<open>calculateRoundResults\<close> runs: whether a vote entry is
  processed at all (its voter is a player of the lobby and its option exists), the points
  it earns, and for an option its author and the voters that count towards the author's
  confusion bonus. The opposite team and the voters fooled by an option are worded after
  the specification (section 4.3).
\<close>

definition optionExists :: "BullRound \<Rightarrow> string \<Rightarrow> bool" where
  "optionExists cr optionId \<longleftrightarrow> List.find (\<lambda>x. option_id x = optionId) (options cr) \<noteq> None"

definition countedVote :: "Lobby \<Rightarrow> BullRound \<Rightarrow> string \<times> string \<Rightarrow> bool" where
  "countedVote l cr e \<longleftrightarrow> findPlayer l (fst e) \<noteq> None \<and> optionExists cr (snd e)"

definition votePoints :: "Lobby \<Rightarrow> string \<Rightarrow> string \<times> string \<Rightarrow> int" where
  "votePoints l correctId e = (if snd e = correctId then pointsCorrectAnswer (settings l) else 0)"

definition voterTeam :: "Lobby \<Rightarrow> string \<Rightarrow> Team option" where
  "voterTeam l playerId =
     (case findPlayer l playerId of None \<Rightarrow> None | Some p \<Rightarrow> player_team (heap l ! p))"

definition optionAuthor :: "Lobby \<Rightarrow> RoundOption \<Rightarrow> addr option" where
  "optionAuthor l opt =
     (case origin opt of OriginPlayer authorId \<Rightarrow> findPlayer l authorId | _ \<Rightarrow> None)"

definition optionVoters :: "Lobby \<Rightarrow> BullRound \<Rightarrow> RoundOption \<Rightarrow> string list" where
  "optionVoters l cr opt =
     (case origin opt of
        OriginPlayer authorId \<Rightarrow>
          (case findPlayer l authorId of
             None \<Rightarrow> []
           | Some author \<Rightarrow> votersForThisOption l cr opt authorId author)
      | _ \<Rightarrow> [])"

definition optionBonus :: "Lobby \<Rightarrow> BullRound \<Rightarrow> RoundOption \<Rightarrow> int" where
  "optionBonus l cr opt =
     int (length (optionVoters l cr opt)) * pointsConfuseOpponent (settings l)"

fun opposite :: "Team \<Rightarrow> Team" where
  "opposite Blue = Red"
| "opposite Red = Blue"


definition teamVotePoints :: "Lobby \<Rightarrow> BullRound \<Rightarrow> string \<Rightarrow> Team \<Rightarrow> int" where
  \<comment> \<open>the points that the processed votes of the members of team \<open>t\<close> earn\<close>
  "teamVotePoints l cr correctId t =
     (\<Sum>e \<leftarrow> votes cr. if countedVote l cr e \<and> voterTeam l (fst e) = Some t
                       then votePoints l correctId e else 0)"

definition teamBonus :: "Lobby \<Rightarrow> BullRound \<Rightarrow> Team \<Rightarrow> RoundOption list \<Rightarrow> int" where
  \<comment> \<open>the confusion bonuses of those options of the list whose author is a member of
      team \<open>t\<close>\<close>
  "teamBonus l cr t opts =
     (\<Sum>x \<leftarrow> opts.
        case optionAuthor l x of
          None \<Rightarrow> 0
        | Some a \<Rightarrow> if player_team (heap l ! a) = Some t then optionBonus l cr x else 0)"

text \<open>Observations on the triple that the loops update.\<close>

definition frame :: "Lobby \<Rightarrow> Lobby \<Rightarrow> bool" where
  \<comment> \<open>the second lobby is the first one up to the scores of its players\<close>
  "frame l0 l \<longleftrightarrow>
     players l = players l0 \<and> settings l = settings l0 \<and> gameState l = gameState l0
     \<and> teams_blue l = teams_blue l0 \<and> teams_red l = teams_red l0
     \<and> length (heap l) = length (heap l0)
     \<and> (\<forall>i. player_id (heap l ! i) = player_id (heap l0 ! i)
            \<and> player_team (heap l ! i) = player_team (heap l0 ! i))"


definition teamTotal :: "Team \<Rightarrow> RoundResult \<Rightarrow> int" where
  "teamTotal t res = (case t of Blue \<Rightarrow> newScores_blue res | Red \<Rightarrow> newScores_red res)"

definition awarded :: "string \<Rightarrow> scoring \<Rightarrow> int option" where
  "awarded k st = map_of (res_pointsAwarded (snd (snd st))) k"

definition confusionOf :: "string \<Rightarrow> scoring \<Rightarrow> string list option" where
  "confusionOf k st = map_of (confusionResults (snd (snd st))) k"

definition votedOf :: "string \<Rightarrow> scoring \<Rightarrow> (string \<times> bool) option" where
  "votedOf k st = map_of (res_votes (snd (snd st))) k"

definition dropVote :: "string \<Rightarrow> Lobby \<Rightarrow> Lobby" where
  \<comment> \<open>the lobby without the vote of the given voter in its current round\<close>
  "dropVote v lobby =
     lobby\<lparr>gameState :=
       map_option
         (\<lambda>gs. gs\<lparr>rounds := updateFirst (\<lambda>r. round_number r = currentRound gs)
                              (\<lambda>r. r\<lparr>votes := filter (\<lambda>e. fst e \<noteq> v) (votes r)\<rparr>)
                              (rounds gs)\<rparr>)
         (gameState lobby)\<rparr>"

definition withGame :: "BullGameState option \<Rightarrow> scoring \<Rightarrow> scoring" where
  \<comment> \<open>the triple with another game state in its lobby\<close>
  "withGame g st = ((fst st)\<lparr>gameState := g\<rparr>, snd st)"

subsection \<open>markPlayerReady, submitVote, resetGame\<close>

definition markPlayerReady :: "Lobby \<Rightarrow> string \<Rightarrow> error + Lobby" where
  "markPlayerReady lobby playerId =
     (case gameState lobby of
        None \<Rightarrow> Inl (GameError INVALID_PHASE)
      | Some gs \<Rightarrow>
          (case getCurrentRound gs of
             None \<Rightarrow> Inl (GameError INVALID_PHASE)
           | Some cr \<Rightarrow>
               let isSelectedPlayer =
                     (player_id (heap lobby ! selected_blue cr) = playerId
                      \<or> player_id (heap lobby ! selected_red cr) = playerId)
               in if \<not> isSelectedPlayer then Inl (GameError INVALID_PHASE)
                  else if \<not> truthy (map_of (playerAnswers cr) playerId)
                  then Inl (GameError VALIDATION_ERROR)
                  else Inr (lobby\<lparr>gameState := Some (setCurrentRound gs
                         (cr\<lparr>playersReady :=
                               AList.update playerId True (playersReady cr)\<rparr>))\<rparr>)))"

definition submitVote :: "Lobby \<Rightarrow> string \<Rightarrow> string \<Rightarrow> error + Lobby" where
  "submitVote lobby playerId optionId =
     (case gameState lobby of
        None \<Rightarrow> Inl (GameError INVALID_PHASE)
      | Some gs \<Rightarrow>
          if phase gs \<noteq> PhaseVoting then Inl (GameError INVALID_PHASE)
          else (case getCurrentRound gs of
             None \<Rightarrow> Inl (GameError INVALID_PHASE)
           | Some cr \<Rightarrow>
               (case List.find (\<lambda>x. option_id x = optionId) (options cr) of
                  None \<Rightarrow> Inl (GameError VALIDATION_ERROR)
                | Some opt \<Rightarrow>
                    if truthy (map_of (votes cr) playerId)
                    then Inl (GameError ALREADY_SUBMITTED)
                    else Inr (lobby\<lparr>gameState := Some (setCurrentRound gs
                           (cr\<lparr>votes := AList.update playerId optionId (votes cr)\<rparr>))\<rparr>))))"

definition resetGame :: "Lobby \<Rightarrow> Lobby" where
  "resetGame lobby =
     lobby\<lparr>gameState := None, status := StatusWaiting,
           heap := foldl (\<lambda>h a. h[a := (h ! a)\<lparr>score := 0, isReady := False\<rparr>])
                     (heap lobby) (players lobby)\<rparr>"

definition nextRoundNumber :: "Lobby \<Rightarrow> Lobby" where
  \<comment> \<open>\<open>lobby.gameState.currentRound++\<close>, done by the socket service after the results\<close>
  "nextRoundNumber lobby =
     lobby\<lparr>gameState := map_option (\<lambda>gs. gs\<lparr>currentRound := currentRound gs + 1\<rparr>)
                            (gameState lobby)\<rparr>"

section \<open>LobbyService (services/lobbyService.ts)\<close>

text \<open>
  The service keeps its lobbies in a map from codes to Lobby objects, and every method
  starts by looking its lobby up. The functions below are the method bodies from the point
  where \<open>lobby\<close> is bound; the lookup, the code generation and the limit on the number of
  lobbies stay with the caller. \<open>leaveLobby\<close> returns \<open>None\<close> for the lobby when it deletes
  it. A Player object is created by \<open>joinLobby\<close> and pushed to that lobby only, so each
  lobby has its own store.
\<close>

definition MAX_PLAYERS_PER_LOBBY :: nat where
  "MAX_PLAYERS_PER_LOBBY = 8"

definition getTeam :: "Team \<Rightarrow> Lobby \<Rightarrow> addr list" where
  \<comment> \<open>\<open>lobby.teams[team]\<close>\<close>
  "getTeam t lobby = (case t of Blue \<Rightarrow> teams_blue lobby | Red \<Rightarrow> teams_red lobby)"

definition setTeam :: "Team \<Rightarrow> addr list \<Rightarrow> Lobby \<Rightarrow> Lobby" where
  \<comment> \<open>\<open>lobby.teams[team] = ...\<close>\<close>
  "setTeam t as lobby =
     (case t of Blue \<Rightarrow> lobby\<lparr>teams_blue := as\<rparr> | Red \<Rightarrow> lobby\<lparr>teams_red := as\<rparr>)"

definition createLobby :: "string \<Rightarrow> string \<Rightarrow> rng \<Rightarrow> Lobby \<times> string \<times> rng" where
  "createLobby lobbyCode sock rnd =
     (let (newHostId, rnd') = generateUUID rnd;
          lobby = \<lparr>code = lobbyCode, hostId = newHostId, hostSocketId = sock, players = [],
                   teams_blue = [], teams_red = [], status = StatusWaiting, gameState = None,
                   settings = DEFAULT_GAME_SETTINGS, heap = []\<rparr>
      in (lobby, newHostId, rnd'))"

definition joinLobby ::
  "Lobby \<Rightarrow> string \<Rightarrow> string \<Rightarrow> rng \<Rightarrow> error + (Lobby \<times> string \<times> rng)" where
  "joinLobby lobby playerName sock rnd =
     (if status lobby \<noteq> StatusWaiting then Inl (LobbyError GAME_ALREADY_STARTED)
      else if length (players lobby) \<ge> MAX_PLAYERS_PER_LOBBY then Inl (LobbyError LOBBY_FULL)
      else
        let existingNames = map (\<lambda>a. toLowerCase (player_name (heap lobby ! a))) (players lobby)
        in if toLowerCase playerName \<in> set existingNames then Inl (LobbyError VALIDATION_ERROR)
           else
             let (playerId, rnd') = generateUUID rnd;
                 newPlayer = \<lparr>player_id = playerId, player_name = playerName,
                              player_team = None, isHost = False, socketId = sock, score = 0,
                              isReady = False, isConnected = True\<rparr>;
                 ref = length (heap lobby)
             in Inr (lobby\<lparr>heap := heap lobby @ [newPlayer], players := players lobby @ [ref]\<rparr>,
                     playerId, rnd'))"

fun findIndex :: "('a \<Rightarrow> bool) \<Rightarrow> 'a list \<Rightarrow> nat option" where
  \<comment> \<open>\<open>Array.prototype.findIndex\<close>, with \<open>None\<close> for \<open>-1\<close>\<close>
  "findIndex P [] = None"
| "findIndex P (x # xs) = (if P x then Some 0 else map_option Suc (findIndex P xs))"

definition leaveLobby :: "Lobby \<Rightarrow> string \<Rightarrow> Lobby option \<times> bool" where
  "leaveLobby lobby playerId =
     (case findIndex (\<lambda>a. player_id (heap lobby ! a) = playerId) (players lobby) of
        None \<Rightarrow> (Some lobby, False)
      | Some playerIndex \<Rightarrow>
          let leavingPlayer = heap lobby ! (players lobby ! playerIndex);
              wasHost = isHost leavingPlayer;
              lobby1 = (case player_team leavingPlayer of
                          None \<Rightarrow> lobby
                        | Some t \<Rightarrow>
                            setTeam t (filter (\<lambda>a. player_id (heap lobby ! a) \<noteq> playerId)
                                         (getTeam t lobby)) lobby);
              lobby2 = lobby1\<lparr>players := take playerIndex (players lobby1)
                                           @ drop (Suc playerIndex) (players lobby1)\<rparr>;
              lobby3 = (if wasHost \<and> length (players lobby2) > 0 then
                          let newHost = players lobby2 ! 0
                          in lobby2\<lparr>heap := (heap lobby2)
                                       [newHost := (heap lobby2 ! newHost)\<lparr>isHost := True\<rparr>],
                                    hostId := player_id (heap lobby2 ! newHost)\<rparr>
                        else lobby2)
          in if length (players lobby3) = 0 then (None, wasHost)
             else (Some lobby3, wasHost))"

definition getPlayer :: "Lobby \<Rightarrow> string \<Rightarrow> error + addr" where
  "getPlayer lobby playerId =
     (case findPlayer lobby playerId of
        None \<Rightarrow> Inl (LobbyError PLAYER_NOT_FOUND)
      | Some player \<Rightarrow> Inr player)"

definition selectTeam :: "Lobby \<Rightarrow> string \<Rightarrow> Team \<Rightarrow> error + Lobby" where
  "selectTeam lobby playerId team =
     (case getPlayer lobby playerId of
        Inl e \<Rightarrow> Inl e
      | Inr player \<Rightarrow>
          if status lobby \<noteq> StatusWaiting then Inl (LobbyError GAME_ALREADY_STARTED)
          else if length (getTeam team lobby) \<ge> 4 then Inl (LobbyError LOBBY_FULL)
          else
            let lobby1 = (case player_team (heap lobby ! player) of
                            None \<Rightarrow> lobby
                          | Some t \<Rightarrow>
                              setTeam t (filter (\<lambda>a. player_id (heap lobby ! a) \<noteq> playerId)
                                           (getTeam t lobby)) lobby);
                lobby2 = lobby1\<lparr>heap := (heap lobby1)
                           [player := (heap lobby1 ! player)\<lparr>player_team := Some team\<rparr>]\<rparr>
            in Inr (setTeam team (getTeam team lobby2 @ [player]) lobby2))"

definition toggleReady :: "Lobby \<Rightarrow> string \<Rightarrow> error + Lobby" where
  "toggleReady lobby playerId =
     (case getPlayer lobby playerId of
        Inl e \<Rightarrow> Inl e
      | Inr player \<Rightarrow>
          if status lobby \<noteq> StatusWaiting then Inl (LobbyError GAME_ALREADY_STARTED)
          else Inr (lobby\<lparr>heap := (heap lobby)
                      [player := (heap lobby ! player)
                                   \<lparr>isReady := \<not> isReady (heap lobby ! player)\<rparr>]\<rparr>))"

record PartialSettings =
  new_maxRounds :: "int option"
  new_answerTimeSeconds :: "int option"
  new_voteTimeSeconds :: "int option"
  new_pointsCorrectAnswer :: "int option"
  new_pointsConfuseOpponent :: "int option"

definition mergeSettings :: "GameSettings \<Rightarrow> PartialSettings \<Rightarrow> GameSettings" where
  \<comment> \<open>\<open>{ ...lobby.settings, ...settings }\<close>\<close>
  "mergeSettings s p =
     \<lparr>maxRounds = (case new_maxRounds p of None \<Rightarrow> maxRounds s | Some v \<Rightarrow> v),
      answerTimeSeconds =
        (case new_answerTimeSeconds p of None \<Rightarrow> answerTimeSeconds s | Some v \<Rightarrow> v),
      voteTimeSeconds =
        (case new_voteTimeSeconds p of None \<Rightarrow> voteTimeSeconds s | Some v \<Rightarrow> v),
      pointsCorrectAnswer =
        (case new_pointsCorrectAnswer p of None \<Rightarrow> pointsCorrectAnswer s | Some v \<Rightarrow> v),
      pointsConfuseOpponent =
        (case new_pointsConfuseOpponent p of None \<Rightarrow> pointsConfuseOpponent s | Some v \<Rightarrow> v)\<rparr>"

definition updateGameSettings :: "Lobby \<Rightarrow> string \<Rightarrow> PartialSettings \<Rightarrow> error + Lobby" where
  "updateGameSettings lobby callerId p =
     (if hostId lobby \<noteq> callerId then Inl (LobbyError NOT_HOST)
      else if status lobby \<noteq> StatusWaiting then Inl (LobbyError GAME_ALREADY_STARTED)
      else Inr (lobby\<lparr>settings := mergeSettings (settings lobby) p\<rparr>))"

definition updatePlayerSocket :: "Lobby \<Rightarrow> string \<Rightarrow> string \<Rightarrow> Lobby" where
  "updatePlayerSocket lobby playerId sock =
     (case findPlayer lobby playerId of
        None \<Rightarrow> lobby
      | Some player \<Rightarrow>
          lobby\<lparr>heap := (heap lobby)
                  [player := (heap lobby ! player)\<lparr>socketId := sock, isConnected := True\<rparr>]\<rparr>)"

definition markPlayerDisconnected :: "Lobby \<Rightarrow> string \<Rightarrow> Lobby" where
  \<comment> \<open>for the lobby in which a player with this socket is found\<close>
  "markPlayerDisconnected lobby sock =
     (case List.find (\<lambda>a. socketId (heap lobby ! a) = sock) (players lobby) of
        None \<Rightarrow> lobby
      | Some player \<Rightarrow>
          lobby\<lparr>heap := (heap lobby)
                  [player := (heap lobby ! player)\<lparr>isConnected := False\<rparr>]\<rparr>)"

subsection \<open>Reachable lobby states\<close>

text \<open>
  A lobby starts as \<open>createLobby\<close> makes it and then changes by the lobby operations, by
  the game operations (with any state of the player selector and any random draws) and by
  the socket service's increment of the round number.
\<close>

inductive reachable :: "Lobby \<Rightarrow> bool" where
  create: "createLobby c sock rnd = (l, h, rnd') \<Longrightarrow> reachable l"
| join: "reachable l \<Longrightarrow> joinLobby l name sock rnd = Inr (l', i, rnd') \<Longrightarrow> reachable l'"
| leave: "reachable l \<Longrightarrow> leaveLobby l i = (Some l', w) \<Longrightarrow> reachable l'"
| selectTeam: "reachable l \<Longrightarrow> selectTeam l i t = Inr l' \<Longrightarrow> reachable l'"
| toggleReady: "reachable l \<Longrightarrow> toggleReady l i = Inr l' \<Longrightarrow> reachable l'"
| updateGameSettings: "reachable l \<Longrightarrow> updateGameSettings l i p = Inr l' \<Longrightarrow> reachable l'"
| updatePlayerSocket: "reachable l \<Longrightarrow> reachable (updatePlayerSocket l i sock)"
| markPlayerDisconnected: "reachable l \<Longrightarrow> reachable (markPlayerDisconnected l sock)"
| startGame: "reachable l \<Longrightarrow> startGame l sel = (r, l', sel') \<Longrightarrow> reachable l'"
| startRound: "reachable l \<Longrightarrow> startRound l n sel rnd = (r, l', sel', rnd') \<Longrightarrow> reachable l'"
| submitAnswer: "reachable l \<Longrightarrow> submitAnswer l i a = Inr l' \<Longrightarrow> reachable l'"
| markPlayerReady: "reachable l \<Longrightarrow> markPlayerReady l i = Inr l' \<Longrightarrow> reachable l'"
| prepareVotingOptions:
    "reachable l \<Longrightarrow> prepareVotingOptions l rnd = Inr ((os, l'), rnd') \<Longrightarrow> reachable l'"
| submitVote: "reachable l \<Longrightarrow> submitVote l i x = Inr l' \<Longrightarrow> reachable l'"
| calculateRoundResults:
    "reachable l \<Longrightarrow> calculateRoundResults l = Inr (res, l') \<Longrightarrow> reachable l'"
| finishGame: "reachable l \<Longrightarrow> finishGame l = Inr (res, l') \<Longrightarrow> reachable l'"
| resetGame: "reachable l \<Longrightarrow> reachable (resetGame l)"
| nextRoundNumber: "reachable l \<Longrightarrow> reachable (nextRoundNumber l)"

definition teamIds :: "Team \<Rightarrow> Lobby \<Rightarrow> string set" where
  \<comment> \<open>the ids of the players in a team list\<close>
  "teamIds t l = (\<lambda>a. player_id (heap l ! a)) ` set (getTeam t l)"

definition teamsConsistent :: "Lobby \<Rightarrow> bool" where
  \<comment> \<open>no id in both team lists, and every player of a team list has that team set\<close>
  "teamsConsistent l \<longleftrightarrow>
     teamIds Blue l \<inter> teamIds Red l = {}
     \<and> (\<forall>t. \<forall>a \<in> set (getTeam t l). player_team (heap l ! a) = Some t)"

definition lobbyInv :: "Lobby \<Rightarrow> bool" where
  \<comment> \<open>the roster entries are objects of the store; a member of a team list has that team
      set and is the roster's first player with its id\<close>
  "lobbyInv l \<longleftrightarrow>
     (\<forall>a \<in> set (players l). a < length (heap l))
     \<and> (\<forall>t. \<forall>a \<in> set (getTeam t l).
            player_team (heap l ! a) = Some t \<and> findPlayer l (player_id (heap l ! a)) = Some a)"

definition sameTeams :: "Lobby \<Rightarrow> Lobby \<Rightarrow> bool" where
  \<comment> \<open>the same roster and team lists, and the same id and team in every Player object\<close>
  "sameTeams l l' \<longleftrightarrow>
     players l' = players l \<and> teams_blue l' = teams_blue l \<and> teams_red l' = teams_red l
     \<and> length (heap l') = length (heap l)
     \<and> (\<forall>i. player_id (heap l' ! i) = player_id (heap l ! i)
            \<and> player_team (heap l' ! i) = player_team (heap l ! i))"

section \<open>Example states\<close>

text \<open>Concrete lobbies on which the theorems below are instantiated.\<close>

definition mkPlayer :: "string \<Rightarrow> Team option \<Rightarrow> bool \<Rightarrow> Player" where
  "mkPlayer i t c =
     \<lparr>player_id = i, player_name = i, player_team = t, isHost = False, socketId = i,
      score = 0, isReady = True, isConnected = c\<rparr>"

definition mkRound :: "int \<Rightarrow> BullRound" where
  "mkRound n =
     \<lparr>round_number = n, question = ''q'', correctAnswer = ''Fay'',
      incorrectAnswer = ''Caballero'', suggestedFormat = None,
      selected_blue = 0, selected_red = 1, playerAnswers = [], playersReady = [],
      options = [], votes = [], round_status = RoundAnswering, pointsAwarded = []\<rparr>"

definition mkGame :: "int \<Rightarrow> GamePhase \<Rightarrow> BullRound list \<Rightarrow> int \<Rightarrow> int \<Rightarrow> BullGameState" where
  "mkGame n ph rs b r =
     \<lparr>currentRound = n, totalRounds = 5, phase = ph, rounds = rs,
      scores_blue = b, scores_red = r, winner = None\<rparr>"

definition mkLobby :: "Player list \<Rightarrow> addr list \<Rightarrow> addr list \<Rightarrow> BullGameState option \<Rightarrow> Lobby" where
  "mkLobby h bs rs g =
     \<lparr>code = ''ABC123'', hostId = ''host'', hostSocketId = ''s0'',
      players = [0..<length h], teams_blue = bs, teams_red = rs,
      status = StatusPlaying, gameState = g, settings = DEFAULT_GAME_SETTINGS, heap = h\<rparr>"

definition twoPlayers :: "Player list" where
  "twoPlayers = [mkPlayer ''a'' (Some Blue) True, mkPlayer ''b'' (Some Red) True]"

definition threePlayers :: "Player list" where
  "threePlayers = [mkPlayer ''a'' (Some Blue) True, mkPlayer ''b'' (Some Red) True,
                   mkPlayer ''c'' (Some Blue) True]"

definition mkParticipation :: "string \<Rightarrow> int \<Rightarrow> int \<Rightarrow> real \<Rightarrow> string \<times> PlayerParticipation" where
  "mkParticipation i l t f =
     (i, \<lparr>pp_playerId = i, lastRoundPlayed = l, timesPlayed = t, factor = f\<rparr>)"

definition freshSelector :: PlayerSelector where
  \<comment> \<open>the selector right after \<open>initialize\<close> for blue = a, c and red = b\<close>
  "freshSelector =
     \<lparr>participationHistory = [mkParticipation ''a'' (-1) 0 1, mkParticipation ''c'' (-1) 0 1,
                               mkParticipation ''b'' (-1) 0 1],
      sel_currentRound = 0\<rparr>"

definition mkOption :: "string \<Rightarrow> string \<Rightarrow> OptionOrigin \<Rightarrow> nat \<Rightarrow> RoundOption" where
  "mkOption i t g p = \<lparr>option_id = i, option_text = t, origin = g, position = p\<rparr>"

definition votingRound :: BullRound where
  \<comment> \<open>round 1 after the writing phase: a (blue) wrote ''fey'', b (red) wrote ''fei''\<close>
  "votingRound =
     (mkRound 1)
       \<lparr>playerAnswers := [(''a'', ''fey''), (''b'', ''fei'')],
        options := [mkOption ''o1'' ''fey'' (OriginPlayer ''a'') 1,
                    mkOption ''o2'' ''Fay'' OriginCorrect 2,
                    mkOption ''o3'' ''fei'' (OriginPlayer ''b'') 3,
                    mkOption ''o4'' ''Caballero'' OriginIncorrect 4],
        round_status := RoundVoting\<rparr>"

definition fourPlayers :: "Player list" where
  "fourPlayers = [mkPlayer ''a'' (Some Blue) True, mkPlayer ''b'' (Some Red) True,
                  mkPlayer ''c'' (Some Blue) True, mkPlayer ''d'' (Some Red) True]"

definition votingLobby :: "(string \<times> string) list \<Rightarrow> Lobby" where
  "votingLobby vs =
     mkLobby fourPlayers [0, 2] [1, 3]
       (Some (mkGame 1 PhaseVoting [votingRound\<lparr>votes := vs\<rparr>] 0 0))"


section \<open>Verified properties\<close>

subsection \<open>finishGame\<close>

text \<open>
  C3. For every lobby with an initialised game state, \<open>finishGame\<close> succeeds, sets the game
  phase and the lobby status to finished, and records as winner blue when blue's score is
  strictly higher, red when red's score is strictly higher, and blue on an exact tie.
\<close>

theorem finishGame_winner:
  assumes "gameState lobby = Some gs"
  shows "\<exists>w lobby' gs'.
           finishGame lobby = Inr ((w, scores_blue gs, scores_red gs), lobby')
         \<and> gameState lobby' = Some gs' \<and> phase gs' = PhaseFinished
         \<and> status lobby' = StatusFinished \<and> winner gs' = Some w
         \<and> (scores_blue gs > scores_red gs \<longrightarrow> w = Blue)
         \<and> (scores_red gs > scores_blue gs \<longrightarrow> w = Red)
         \<and> (scores_blue gs = scores_red gs \<longrightarrow> w = Blue)"
  using assms by (simp add: finishGame_def Let_def)

theorem finishGame_winner_witness:
  "\<exists>lobby'. finishGame (mkLobby twoPlayers [0] [1] (Some (mkGame 5 PhaseResults [] 300 300)))
             = Inr ((Blue, 300, 300), lobby')
           \<and> status lobby' = StatusFinished"
  using finishGame_winner
    [of "mkLobby twoPlayers [0] [1] (Some (mkGame 5 PhaseResults [] 300 300))"
        "mkGame 5 PhaseResults [] 300 300"]
  by (auto simp: mkLobby_def mkGame_def)

subsection \<open>isGameFinished\<close>

lemma isGameFinished_ignores_rounds:
  "gameState lobby = Some gs
     \<Longrightarrow> isGameFinished (lobby\<lparr>gameState := Some (gs\<lparr>rounds := rs\<rparr>)\<rparr>) = isGameFinished lobby"
  by (simp add: isGameFinished_def)

text \<open>
  C6 (the code departs from the claim). \<open>isGameFinished\<close> compares the round number with
  \<open>settings.maxRounds\<close> and never looks at a round. With \<open>maxRounds = 5\<close> it is already
  true when the round number has just been raised to 5 after the results of round 4 and no
  round 5 exists yet, and it is also true while round 5 is still in its answering status.
\<close>

theorem isGameFinished_open_round:
  "isGameFinished (mkLobby twoPlayers [0] [1]
      (Some (mkGame 5 PhaseResults [(mkRound 4)\<lparr>round_status := RoundFinished\<rparr>] 0 0)))
   \<and> getCurrentRound (mkGame 5 PhaseResults [(mkRound 4)\<lparr>round_status := RoundFinished\<rparr>] 0 0)
       = None
   \<and> isGameFinished (mkLobby twoPlayers [0] [1] (Some (mkGame 5 PhaseWriting [mkRound 5] 0 0)))
   \<and> map_option round_status (getCurrentRound (mkGame 5 PhaseWriting [mkRound 5] 0 0))
       = Some RoundAnswering"
  by (simp add: isGameFinished_def getCurrentRound_def mkLobby_def mkGame_def mkRound_def
        DEFAULT_GAME_SETTINGS_def)

subsection \<open>allVotesSubmitted\<close>

text \<open>
  C7. \<open>allVotesSubmitted\<close> is true exactly when a game state and a current round exist and
  the number of recorded votes (distinct voter ids of the round's \<open>votes\<close> object) is at
  least the number of roster entries whose player is marked connected; disconnected
  players do not count. Without a game state or a current round it is false.
\<close>

theorem allVotesSubmitted_quorum:
  assumes "\<forall>gs r. gameState lobby = Some gs \<longrightarrow> getCurrentRound gs = Some r
             \<longrightarrow> distinct (map fst (votes r))"
  shows "allVotesSubmitted lobby =
           (\<exists>gs r. gameState lobby = Some gs \<and> getCurrentRound gs = Some r
              \<and> card {i. i < length (players lobby)
                        \<and> isConnected (heap lobby ! (players lobby ! i))}
                 \<le> card (fst ` set (votes r)))"
proof (cases "gameState lobby")
  case None
  then show ?thesis by (simp add: allVotesSubmitted_def)
next
  case (Some gs)
  show ?thesis
  proof (cases "getCurrentRound gs")
    case None
    with Some show ?thesis by (simp add: allVotesSubmitted_def)
  next
    case r: (Some r)
    have "distinct (map fst (votes r))" using assms Some r by blast
    then have "card (fst ` set (votes r)) = length (votes r)"
      by (metis distinct_card length_map set_map)
    moreover have "length (filter (\<lambda>a. isConnected (heap lobby ! a)) (players lobby))
        = card {i. i < length (players lobby) \<and> isConnected (heap lobby ! (players lobby ! i))}"
      by (rule length_filter_conv_card)
    ultimately show ?thesis using Some r by (simp add: allVotesSubmitted_def)
  qed
qed

theorem allVotesSubmitted_quorum_witness:
  "allVotesSubmitted
     (mkLobby [mkPlayer ''a'' (Some Blue) True, mkPlayer ''b'' (Some Red) False] [0] [1]
        (Some (mkGame 1 PhaseVoting [(mkRound 1)\<lparr>votes := [(''a'', ''o1'')]\<rparr>] 0 0)))"
proof -
  let ?g = "mkGame 1 PhaseVoting [(mkRound 1)\<lparr>votes := [(''a'', ''o1'')]\<rparr>] 0 0"
  let ?l = "mkLobby [mkPlayer ''a'' (Some Blue) True, mkPlayer ''b'' (Some Red) False] [0] [1]
              (Some ?g)"
  have cur: "getCurrentRound ?g = Some ((mkRound 1)\<lparr>votes := [(''a'', ''o1'')]\<rparr>)"
    by (simp add: getCurrentRound_def mkGame_def mkRound_def)
  have h: "\<forall>gs r. gameState ?l = Some gs \<longrightarrow> getCurrentRound gs = Some r
             \<longrightarrow> distinct (map fst (votes r))"
    using cur by (auto simp: mkLobby_def)
  have c: "{i. i < length (players ?l) \<and> isConnected (heap ?l ! (players ?l ! i))} = {0}"
    by (auto simp: mkLobby_def mkPlayer_def less_Suc_eq)
  have g: "gameState ?l = Some ?g" by (simp add: mkLobby_def)
  have "\<exists>gs r. gameState ?l = Some gs \<and> getCurrentRound gs = Some r
          \<and> card {i. i < length (players ?l) \<and> isConnected (heap ?l ! (players ?l ! i))}
             \<le> card (fst ` set (votes r))"
    unfolding c using g cur by simp
  then show ?thesis
    using allVotesSubmitted_quorum [OF h] by blast
qed

subsection \<open>submitAnswer\<close>

lemma find_updateFirst:
  "List.find P xs = Some x \<Longrightarrow> P y \<Longrightarrow> List.find P (updateFirst P (\<lambda>_. y) xs) = Some y"
  by (induction xs) (auto split: if_splits)

lemma getCurrentRound_setCurrentRound:
  assumes "getCurrentRound gs = Some r" and "round_number r' = round_number r"
  shows "getCurrentRound (setCurrentRound gs r') = Some r'"
proof -
  have "round_number r = currentRound gs"
    using assms(1) unfolding getCurrentRound_def by (auto simp: find_Some_iff)
  with assms show ?thesis
    unfolding getCurrentRound_def setCurrentRound_def
    by (simp add: find_updateFirst)
qed

lemma truthy_nonempty_entries:
  assumes "\<forall>a \<in> snd ` set al. a \<noteq> []"
  shows "truthy (map_of al k) = (k \<in> fst ` set al)"
proof (cases "map_of al k")
  case None
  then have "k \<notin> fst ` set al" by (simp add: map_of_eq_None_iff)
  with None show ?thesis by (simp add: truthy_def)
next
  case (Some a)
  then have "(k, a) \<in> set al" by (rule map_of_SomeD)
  with assms Some show ?thesis by (force simp: truthy_def)
qed

text \<open>
  C5. In a lobby whose stored answers are all non-empty (which \<open>submitAnswer\<close> itself
  guarantees), \<open>submitAnswer\<close> succeeds if and only if the phase is writing, a current round
  exists, the player is one of the round's two selected players, has no answer recorded in
  this round, and the trimmed answer is non-empty and differs, after lower-casing, from the
  round's correct and seed incorrect answers. On success the current round maps the player
  to the trimmed answer and keeps every other entry. In every other case the result is an
  error and there is no new state; the error is ALREADY_SUBMITTED when the phase is writing
  and the round already holds an answer of that player.
\<close>

theorem submitAnswer_iff:
  assumes "\<forall>gs r. gameState lobby = Some gs \<longrightarrow> getCurrentRound gs = Some r
             \<longrightarrow> (\<forall>a \<in> snd ` set (playerAnswers r). a \<noteq> [])"
  shows "((\<exists>lobby'. submitAnswer lobby playerId answer = Inr lobby') \<longleftrightarrow>
            (\<exists>gs r. gameState lobby = Some gs \<and> phase gs = PhaseWriting
               \<and> getCurrentRound gs = Some r
               \<and> (player_id (heap lobby ! selected_blue r) = playerId
                  \<or> player_id (heap lobby ! selected_red r) = playerId)
               \<and> playerId \<notin> fst ` set (playerAnswers r)
               \<and> trim answer \<noteq> []
               \<and> toLowerCase (trim answer) \<noteq> toLowerCase (correctAnswer r)
               \<and> toLowerCase (trim answer) \<noteq> toLowerCase (incorrectAnswer r)))
       \<and> (\<forall>lobby' gs r. submitAnswer lobby playerId answer = Inr lobby'
             \<longrightarrow> gameState lobby = Some gs \<longrightarrow> getCurrentRound gs = Some r
             \<longrightarrow> (\<exists>gs' r'. gameState lobby' = Some gs' \<and> getCurrentRound gs' = Some r'
                    \<and> map_of (playerAnswers r')
                        = (map_of (playerAnswers r))(playerId \<mapsto> trim answer)))
       \<and> ((\<nexists>lobby'. submitAnswer lobby playerId answer = Inr lobby')
             \<longrightarrow> (\<exists>c. submitAnswer lobby playerId answer = Inl (GameError c)))
       \<and> (\<forall>gs r. gameState lobby = Some gs \<longrightarrow> phase gs = PhaseWriting
             \<longrightarrow> getCurrentRound gs = Some r \<longrightarrow> playerId \<in> fst ` set (playerAnswers r)
             \<longrightarrow> submitAnswer lobby playerId answer = Inl (GameError ALREADY_SUBMITTED))"
proof (cases "gameState lobby")
  case None
  then show ?thesis by (simp add: submitAnswer_def)
next
  case gs: (Some gs)
  show ?thesis
  proof (cases "getCurrentRound gs")
    case None
    with gs show ?thesis by (simp add: submitAnswer_def)
  next
    case r: (Some r)
    have t: "truthy (map_of (playerAnswers r) playerId) = (playerId \<in> fst ` set (playerAnswers r))"
      using assms gs r by (intro truthy_nonempty_entries) blast
    have cur: "getCurrentRound (setCurrentRound gs
                 (r\<lparr>playerAnswers := AList.update playerId (trim answer) (playerAnswers r)\<rparr>))
               = Some (r\<lparr>playerAnswers := AList.update playerId (trim answer) (playerAnswers r)\<rparr>)"
      using r by (intro getCurrentRound_setCurrentRound) simp_all
    show ?thesis
      using gs r cur
      by (auto simp: submitAnswer_def Let_def t update_conv')
  qed
qed

theorem submitAnswer_iff_witness:
  "submitAnswer
     (mkLobby twoPlayers [0] [1] (Some (mkGame 1 PhaseWriting [mkRound 1] 0 0))) ''a'' '' fey ''
   = Inr (mkLobby twoPlayers [0] [1]
       (Some (mkGame 1 PhaseWriting [(mkRound 1)\<lparr>playerAnswers := [(''a'', ''fey'')]\<rparr>] 0 0)))"
proof -
  let ?l = "mkLobby twoPlayers [0] [1] (Some (mkGame 1 PhaseWriting [mkRound 1] 0 0))"
  have h: "\<forall>gs r. gameState ?l = Some gs \<longrightarrow> getCurrentRound gs = Some r
             \<longrightarrow> (\<forall>a \<in> snd ` set (playerAnswers r). a \<noteq> [])"
    by (auto simp: mkLobby_def mkGame_def mkRound_def getCurrentRound_def)
  have tr: "trim '' fey '' = ''fey''"
    by (simp add: trim_def isWhitespace_def)
  have "\<exists>lobby'. submitAnswer ?l ''a'' '' fey '' = Inr lobby'"
    unfolding conjunct1 [OF submitAnswer_iff [OF h]] tr
    by (simp add: mkLobby_def mkGame_def mkRound_def getCurrentRound_def twoPlayers_def
          mkPlayer_def toLowerCase_def toLowerChar_def upperCaseLetters_def
          lowerCaseLetters_def)
  then show ?thesis
    by (auto simp: submitAnswer_def mkLobby_def mkGame_def mkRound_def getCurrentRound_def
          twoPlayers_def mkPlayer_def toLowerCase_def toLowerChar_def truthy_def tr
          upperCaseLetters_def lowerCaseLetters_def
          setCurrentRound_def Let_def split: if_splits)
qed

subsection \<open>prepareVotingOptions\<close>

lemma unitDraws_random: "unitDraws rnd \<Longrightarrow> unitDraws (snd (random rnd))"
  by (simp add: unitDraws_def random_def)

lemma unitDraws_head: "unitDraws rnd \<Longrightarrow> 0 \<le> fst (random rnd) \<and> fst (random rnd) < 1"
  by (simp add: unitDraws_def random_def)

lemma unitDraws_replaceXY: "unitDraws rnd \<Longrightarrow> unitDraws (snd (replaceXY cs rnd))"
proof (induction cs arbitrary: rnd)
  case Nil
  then show ?case by simp
next
  case (Cons c cs)
  from Cons.prems have "unitDraws (snd (random rnd))" by (rule unitDraws_random)
  then have "unitDraws (snd (replaceXY cs (snd (random rnd))))" by (rule Cons.IH)
  moreover have "unitDraws (snd (replaceXY cs rnd))" using Cons.prems by (rule Cons.IH)
  ultimately show ?case
    by (simp add: Let_def split_beta)
qed

lemma unitDraws_generateUUID: "unitDraws rnd \<Longrightarrow> unitDraws (snd (generateUUID rnd))"
  unfolding generateUUID_def by (rule unitDraws_replaceXY)

lemma optionContent_record [simp]:
  "optionContent \<lparr>option_id = i, option_text = t, origin = g, position = p\<rparr> = (t, g)"
  by (simp add: optionContent_def)

lemma unitDraws_addPlayerOptions:
  "unitDraws rnd \<Longrightarrow> unitDraws (snd (addPlayerOptions as opts rnd))"
proof (induction as arbitrary: opts rnd)
  case Nil
  then show ?case by simp
next
  case (Cons a as)
  obtain p t where a: "a = (p, t)" by (cases a)
  from Cons.prems have "unitDraws (snd (generateUUID rnd))" by (rule unitDraws_generateUUID)
  then show ?case unfolding a by (simp add: split_beta Cons.IH)
qed

lemma content_addPlayerOptions:
  "map optionContent (fst (addPlayerOptions as opts rnd))
     = map optionContent opts @ map (\<lambda>(p, a). (a, OriginPlayer p)) as"
proof (induction as arbitrary: opts rnd)
  case Nil
  then show ?case by simp
next
  case (Cons a as)
  obtain p t where a: "a = (p, t)" by (cases a)
  show ?case unfolding a by (simp add: split_beta Cons.IH)
qed

lemma position_addPlayerOptions:
  "\<forall>x \<in> set opts. position x = 0
     \<Longrightarrow> \<forall>x \<in> set (fst (addPlayerOptions as opts rnd)). position x = 0"
proof (induction as arbitrary: opts rnd)
  case Nil
  then show ?case by simp
next
  case (Cons a as)
  obtain p t where a: "a = (p, t)" by (cases a)
  have "\<forall>x \<in> set (opts @ [\<lparr>option_id = fst (generateUUID rnd), option_text = t,
            origin = OriginPlayer p, position = 0\<rparr>]). position x = 0"
    using Cons.prems by simp
  from Cons.IH [OF this] show ?case unfolding a by (simp add: split_beta)
qed

lemma unitDraws_addDummyOptions:
  "unitDraws rnd \<Longrightarrow> unitDraws (snd (addDummyOptions opts rnd))"
proof (induction opts rnd rule: addDummyOptions.induct)
  case (1 opts rnd)
  show ?case
  proof (cases "length opts < ROUND_OPTIONS_COUNT")
    case True
    then show ?thesis
      using "1.IH" [OF True] "1.prems"
      by (subst addDummyOptions.simps) (simp add: unitDraws_generateUUID)
  next
    case False
    then show ?thesis using "1.prems" by (subst addDummyOptions.simps) simp
  qed
qed

lemma content_addDummyOptions:
  "map optionContent (fst (addDummyOptions opts rnd))
     = map optionContent opts
       @ map (\<lambda>k. (dummyText k, OriginIncorrect)) [length opts ..< ROUND_OPTIONS_COUNT]"
proof (induction opts rnd rule: addDummyOptions.induct)
  case (1 opts rnd)
  show ?case
  proof (cases "length opts < ROUND_OPTIONS_COUNT")
    case True
    then show ?thesis
      using "1.IH" [OF True]
      by (subst addDummyOptions.simps) (simp add: upt_rec [of "length opts"])
  next
    case False
    then show ?thesis by (subst addDummyOptions.simps) simp
  qed
qed

lemma position_addDummyOptions:
  "\<forall>x \<in> set opts. position x = 0
     \<Longrightarrow> \<forall>x \<in> set (fst (addDummyOptions opts rnd)). position x = 0"
proof (induction opts rnd rule: addDummyOptions.induct)
  case (1 opts rnd)
  show ?case
  proof (cases "length opts < ROUND_OPTIONS_COUNT")
    case True
    then show ?thesis
      using "1.IH" [OF True] "1.prems"
      by (subst addDummyOptions.simps) simp
  next
    case False
    then show ?thesis using "1.prems" by (subst addDummyOptions.simps) simp
  qed
qed

lemma shuffleFrom_mset:
  "unitDraws rnd \<Longrightarrow> k < length xs \<Longrightarrow> mset (fst (shuffleFrom k xs rnd)) = mset xs"
proof (induction k arbitrary: xs rnd)
  case 0
  then show ?case by simp
next
  case (Suc k)
  let ?u = "fst (random rnd)"
  let ?j = "nat \<lfloor>?u * real (Suc k + 1)\<rfloor>"
  let ?xs = "xs[Suc k := xs ! ?j, ?j := xs ! Suc k]"
  have u: "0 \<le> ?u" "?u < 1" using Suc.prems(1) unitDraws_head by blast+
  have "?u * real (Suc k + 1) < real (Suc k + 1)"
    using u by simp
  then have "\<lfloor>?u * real (Suc k + 1)\<rfloor> < int (Suc k + 1)"
    by (simp add: floor_less_iff)
  then have j: "?j < length xs" using Suc.prems(2) by linarith
  have "mset (fst (shuffleFrom k ?xs (snd (random rnd)))) = mset ?xs"
    using Suc.prems by (intro Suc.IH unitDraws_random) simp_all
  also have "\<dots> = mset xs"
    using mset_swap [of ?j xs "Suc k"] j Suc.prems(2) by simp
  finally show ?case by (simp add: Let_def split_beta)
qed

lemma shuffleArray_mset:
  "unitDraws rnd \<Longrightarrow> mset (fst (shuffleArray xs rnd)) = mset xs"
proof (cases xs)
  case Nil
  then show ?thesis by (simp add: shuffleArray_def)
next
  case (Cons a list)
  assume "unitDraws rnd"
  then show ?thesis unfolding shuffleArray_def
    by (rule shuffleFrom_mset) (simp add: Cons)
qed

lemma assignPositions_nth:
  "i < length xs \<Longrightarrow> assignPositions xs ! i = (xs ! i)\<lparr>position := i + 1\<rparr>"
  by (simp add: assignPositions_def nth_enumerate_eq)

lemma length_assignPositions: "length (assignPositions xs) = length xs"
  by (simp add: assignPositions_def)

lemma assignPositions_reset:
  "map (\<lambda>x. x\<lparr>position := 0\<rparr>) (assignPositions xs) = map (\<lambda>x. x\<lparr>position := 0\<rparr>) xs"
  by (rule nth_equalityI) (simp_all add: length_assignPositions assignPositions_nth)

lemma length_addPlayerOptions:
  "length (fst (addPlayerOptions as opts rnd)) = length opts + length as"
  using arg_cong [OF content_addPlayerOptions [of as opts rnd], of length] by simp

lemma filler_texts:
  assumes "n \<le> 2"
  shows "map (\<lambda>k. (dummyText k, OriginIncorrect)) [2 + n ..< ROUND_OPTIONS_COUNT]
           = map (\<lambda>t. (t, OriginIncorrect))
               (drop n [''Respuesta placeholder 1'', ''Respuesta placeholder 2''])"
proof -
  consider "n = 0" | "n = 1" | "n = 2" using assms by linarith
  then show ?thesis
    by cases (simp_all add: ROUND_OPTIONS_COUNT_def dummyText_def upt_rec)
qed

lemma assembleOptions_content:
  "map optionContent (fst (assembleOptions cr rnd))
     = [(correctAnswer cr, OriginCorrect), (incorrectAnswer cr, OriginIncorrect)]
       @ map (\<lambda>(p, a). (a, OriginPlayer p)) (playerAnswers cr)
       @ map (\<lambda>k. (dummyText k, OriginIncorrect))
           [2 + length (playerAnswers cr) ..< ROUND_OPTIONS_COUNT]"
  by (simp add: assembleOptions_def split_beta Let_def content_addDummyOptions
        content_addPlayerOptions length_addPlayerOptions)

lemma assembleOptions_unitDraws:
  "unitDraws rnd \<Longrightarrow> unitDraws (snd (assembleOptions cr rnd))"
  by (simp add: assembleOptions_def split_beta Let_def unitDraws_addDummyOptions
        unitDraws_addPlayerOptions unitDraws_generateUUID)

lemma assembleOptions_position:
  "\<forall>x \<in> set (fst (assembleOptions cr rnd)). position x = 0"
  unfolding assembleOptions_def split_beta Let_def
  by (intro position_addDummyOptions position_addPlayerOptions) simp

lemma getCurrentRound_phase [simp]:
  "getCurrentRound (gs\<lparr>phase := p\<rparr>) = getCurrentRound gs"
  by (simp add: getCurrentRound_def)

lemma count_correct_origin:
  "length (filter (\<lambda>x. origin x = OriginCorrect) xs)
     = size (filter_mset (\<lambda>c. snd c = OriginCorrect) (mset (map optionContent xs)))"
  by (induction xs) (simp_all add: optionContent_def)

text \<open>
  C1. For a round with at most two submitted player answers and draws of \<open>Math.random\<close>
  in \<open>[0, 1)\<close>, \<open>prepareVotingOptions\<close> succeeds, stores its result as the options of the
  current round and sets the phase to voting. The stored list has exactly 4 options, exactly
  one of them of origin correct; its texts and origins are a permutation of: the correct
  answer, the seed incorrect answer, the submitted player answers, and as many placeholders
  as are needed to reach 4; up to the positions it is a permutation of the first 4 assembled
  options; and the option at index \<open>i\<close> has position \<open>i + 1\<close>.
\<close>

theorem prepareVotingOptions_four_options:
  assumes "unitDraws rnd" and "gameState lobby = Some gs" and "getCurrentRound gs = Some cr"
    and "length (playerAnswers cr) \<le> 2"
  shows "\<exists>final lobby' rnd' gs' cr'.
           prepareVotingOptions lobby rnd = Inr ((final, lobby'), rnd')
         \<and> gameState lobby' = Some gs' \<and> phase gs' = PhaseVoting
         \<and> getCurrentRound gs' = Some cr' \<and> options cr' = final
         \<and> length final = 4
         \<and> length (filter (\<lambda>x. origin x = OriginCorrect) final) = 1
         \<and> mset (map optionContent final)
             = mset ([(correctAnswer cr, OriginCorrect), (incorrectAnswer cr, OriginIncorrect)]
                 @ map (\<lambda>(p, a). (a, OriginPlayer p)) (playerAnswers cr)
                 @ map (\<lambda>t. (t, OriginIncorrect))
                     (drop (length (playerAnswers cr))
                        [''Respuesta placeholder 1'', ''Respuesta placeholder 2'']))
         \<and> mset (map (\<lambda>x. x\<lparr>position := 0\<rparr>) final)
             = mset (take 4 (fst (assembleOptions cr rnd)))
         \<and> (\<forall>i < length final. position (final ! i) = i + 1)"
proof -
  obtain opts rnd1 where a: "assembleOptions cr rnd = (opts, rnd1)" by force
  obtain shuffled rnd2
    where s: "shuffleArray (take ROUND_OPTIONS_COUNT opts) rnd1 = (shuffled, rnd2)" by force
  let ?final = "assignPositions shuffled"
  let ?cr' = "cr\<lparr>options := ?final\<rparr>"
  let ?gs' = "(setCurrentRound gs ?cr')\<lparr>phase := PhaseVoting\<rparr>"
  let ?expected = "[(correctAnswer cr, OriginCorrect), (incorrectAnswer cr, OriginIncorrect)]
      @ map (\<lambda>(p, a). (a, OriginPlayer p)) (playerAnswers cr)
      @ map (\<lambda>t. (t, OriginIncorrect))
          (drop (length (playerAnswers cr))
             [''Respuesta placeholder 1'', ''Respuesta placeholder 2''])"
  have run: "prepareVotingOptions lobby rnd
               = Inr ((?final, lobby\<lparr>gameState := Some ?gs'\<rparr>), rnd2)"
    using assms(2,3) a s by (simp add: prepareVotingOptions_def Let_def)
  have cur: "getCurrentRound ?gs' = Some ?cr'"
    using assms(3) by (simp add: getCurrentRound_setCurrentRound)
  have content: "map optionContent opts = ?expected"
    using assembleOptions_content [of cr rnd] a filler_texts [OF assms(4)]
    by simp
  have "length (map optionContent opts) = 4"
    unfolding content using assms(4) by simp
  then have len: "length opts = 4" by simp
  then have tk: "take ROUND_OPTIONS_COUNT opts = opts"
    by (simp add: ROUND_OPTIONS_COUNT_def)
  have "unitDraws rnd1"
    using assembleOptions_unitDraws [OF assms(1), of cr] a by simp
  then have m: "mset shuffled = mset opts"
    using shuffleArray_mset [of rnd1 opts] s tk by simp
  then have lens: "length shuffled = 4"
    using len by (metis size_mset)
  have pos0: "map (\<lambda>x. x\<lparr>position := 0\<rparr>) opts = opts"
    using assembleOptions_position [of cr rnd] a by (simp add: map_idI)
  have perm: "mset (map (\<lambda>x. x\<lparr>position := 0\<rparr>) ?final) = mset opts"
    unfolding assignPositions_reset mset_map m
    using pos0 by (metis mset_map)
  have cont: "map optionContent ?final = map optionContent shuffled"
    by (rule nth_equalityI)
       (simp_all add: length_assignPositions assignPositions_nth optionContent_def)
  have mc: "mset (map optionContent ?final) = mset ?expected"
    unfolding cont mset_map m using content by (metis mset_map)
  have one: "length (filter (\<lambda>x. origin x = OriginCorrect) ?final) = 1"
    unfolding count_correct_origin mc
    by (auto simp: filter_mset_False split_beta)
  have posn: "\<forall>i < length ?final. position (?final ! i) = i + 1"
    by (simp add: length_assignPositions assignPositions_nth)
  show ?thesis
    using run cur lens one mc perm posn a len
    by (simp add: length_assignPositions)
qed

theorem prepareVotingOptions_four_options_witness:
  "\<exists>final lobby' rnd'.
      prepareVotingOptions
        (mkLobby twoPlayers [0] [1]
           (Some (mkGame 1 PhaseWriting [(mkRound 1)\<lparr>playerAnswers := [(''a'', ''fey'')]\<rparr>] 0 0)))
        (\<lambda>n. 1 / 3)
      = Inr ((final, lobby'), rnd')
    \<and> length final = 4
    \<and> mset (map optionContent final)
        = mset [(''Fay'', OriginCorrect), (''Caballero'', OriginIncorrect),
                (''fey'', OriginPlayer ''a''), (''Respuesta placeholder 2'', OriginIncorrect)]"
proof -
  let ?cr = "(mkRound 1)\<lparr>playerAnswers := [(''a'', ''fey'')]\<rparr>"
  let ?gs = "mkGame 1 PhaseWriting [?cr] 0 0"
  let ?l = "mkLobby twoPlayers [0] [1] (Some ?gs)"
  have 1: "unitDraws (\<lambda>n. 1 / 3)" by (simp add: unitDraws_def)
  have 2: "gameState ?l = Some ?gs" by (simp add: mkLobby_def)
  have 3: "getCurrentRound ?gs = Some ?cr"
    by (simp add: getCurrentRound_def mkGame_def mkRound_def)
  have 4: "length (playerAnswers ?cr) \<le> 2" by simp
  show ?thesis
    using prepareVotingOptions_four_options [OF 1 2 3 4]
    by (auto simp: mkRound_def)
qed

subsection \<open>Participation factors\<close>

lemma spec_averageTimesPlayed_cong:
  "list_all2 sameHistory ps qs \<Longrightarrow> spec_averageTimesPlayed ps = spec_averageTimesPlayed qs"
proof -
  assume a: "list_all2 sameHistory ps qs"
  then have "map timesPlayed ps = map timesPlayed qs"
    by (induction rule: list_all2_induct) (simp_all add: sameHistory_def)
  moreover have "length ps = length qs" using a by (rule list_all2_lengthD)
  ultimately show ?thesis by (simp add: spec_averageTimesPlayed_def)
qed

lemma spec_rawFactor_cong:
  "list_all2 sameHistory ps qs \<Longrightarrow> sameHistory p q
     \<Longrightarrow> spec_rawFactor r ps p = spec_rawFactor r qs q"
  using spec_averageTimesPlayed_cong [of ps qs]
  by (simp add: spec_rawFactor_def sameHistory_def)

lemma calculatePlayerFactor_spec:
  "calculatePlayerFactor sel p
     = spec_rawFactor (sel_currentRound sel) (map snd (participationHistory sel)) p"
  by (simp add: calculatePlayerFactor_def spec_rawFactor_def getAverageTimesPlayed_def
        spec_averageTimesPlayed_def Let_def mult.commute)

lemma spec_rawFactor_pos:
  assumes "lastRoundPlayed p \<le> r"
  shows "0 < spec_rawFactor r roster p"
proof (cases "lastRoundPlayed p = -1")
  case True
  then show ?thesis by (simp add: spec_rawFactor_def)
next
  case False
  define d where "d = real_of_int (r - lastRoundPlayed p)"
  have "0 \<le> d" using assms by (simp add: d_def)
  then have "0 \<le> 0.2 * d" by simp
  then have "0 < 1 + 0.2 * d" by linarith
  then have "0 < min 2 (1 + 0.2 * d)" by simp
  moreover have "(0::real) < max 0.1 x" for x by simp
  ultimately have "0 < min 2 (1 + 0.2 * d) * max 0.1 x" for x
    by (rule mult_pos_pos)
  then show ?thesis
    using False unfolding spec_rawFactor_def d_def by simp
qed

lemma sum_list_pos_real:
  fixes xs :: "real list"
  assumes "xs \<noteq> []" and "\<forall>x \<in> set xs. 0 < x"
  shows "0 < sum_list xs"
  using assms
proof (induction xs)
  case Nil
  then show ?case by simp
next
  case (Cons a xs)
  then show ?case
    by (cases xs) (auto intro: add_pos_pos)
qed

lemma updateFactors_spec:
  assumes inv: "\<forall>p \<in> snd ` set (participationHistory sel). lastRoundPlayed p \<le> sel_currentRound sel"
    and r: "1 \<le> sel_currentRound sel"
  shows "sel_currentRound (updateFactors sel) = sel_currentRound sel"
    and "list_all2 sameHistory (map snd (participationHistory (updateFactors sel)))
           (map snd (participationHistory sel))"
    and "map fst (participationHistory (updateFactors sel)) = map fst (participationHistory sel)"
    and "\<forall>p \<in> snd ` set (participationHistory (updateFactors sel)).
           factor p = spec_factor (sel_currentRound sel)
                        (map snd (participationHistory (updateFactors sel))) p"
proof -
  let ?r = "sel_currentRound sel"
  let ?h = "participationHistory sel"
  let ?ps = "map snd ?h"
  let ?raw = "map (\<lambda>(k, p). (k, p\<lparr>factor := calculatePlayerFactor sel p\<rparr>)) ?h"
  let ?sel1 = "sel\<lparr>participationHistory := ?raw\<rparr>"
  let ?total = "\<Sum>p \<leftarrow> map snd ?raw. factor p"
  have uf: "updateFactors sel = normalizeFactors ?sel1"
    using r by (simp add: updateFactors_def)
  have tot: "?total = (\<Sum>q \<leftarrow> ?ps. spec_rawFactor ?r ?ps q)"
    by (simp add: o_def split_beta calculatePlayerFactor_spec)
  show "sel_currentRound (updateFactors sel) = ?r"
    unfolding uf by (simp add: normalizeFactors_def Let_def)
  show "map fst (participationHistory (updateFactors sel)) = map fst ?h"
    unfolding uf by (simp add: normalizeFactors_def Let_def o_def split_beta)
  show same: "list_all2 sameHistory (map snd (participationHistory (updateFactors sel))) ?ps"
    unfolding uf
    by (simp add: normalizeFactors_def Let_def list_all2_conv_all_nth split_beta sameHistory_def)
  show "\<forall>p \<in> snd ` set (participationHistory (updateFactors sel)).
           factor p = spec_factor ?r (map snd (participationHistory (updateFactors sel))) p"
  proof
    fix p'
    assume p': "p' \<in> snd ` set (participationHistory (updateFactors sel))"
    let ?ps' = "map snd (participationHistory (updateFactors sel))"
    have ne: "?h \<noteq> []" using p' unfolding uf
      by (auto simp: normalizeFactors_def Let_def split: if_splits)
    have "\<forall>x \<in> set (map (spec_rawFactor ?r ?ps) ?ps). 0 < x"
      using inv by (auto intro: spec_rawFactor_pos)
    moreover have "map (spec_rawFactor ?r ?ps) ?ps \<noteq> []" using ne by simp
    ultimately have pos: "0 < (\<Sum>q \<leftarrow> ?ps. spec_rawFactor ?r ?ps q)"
      by (rule sum_list_pos_real [rotated])
    then have norm: "participationHistory (updateFactors sel)
        = map (\<lambda>(k, p). (k, p\<lparr>factor := max 0.1 (factor p * (real (length ?ps) / ?total))\<rparr>)) ?raw"
      unfolding uf using tot by (simp add: normalizeFactors_def Let_def)
    from p' obtain k p where kp: "(k, p) \<in> set ?h"
      and p'_def: "p' = p\<lparr>factor := max 0.1 (calculatePlayerFactor sel p
                                   * (real (length ?ps) / ?total))\<rparr>"
      unfolding norm by (auto simp: split_beta)
    have sh: "sameHistory p' p" by (simp add: p'_def sameHistory_def)
    have raw_eq: "spec_rawFactor ?r ?ps' q' = spec_rawFactor ?r ?ps q" if "sameHistory q' q" for q' q
      using same that by (rule spec_rawFactor_cong)
    have "map (spec_rawFactor ?r ?ps') ?ps' = map (spec_rawFactor ?r ?ps) ?ps"
      using same
      by (auto simp: list_eq_iff_nth_eq list_all2_conv_all_nth intro!: raw_eq)
    then have sum_eq: "(\<Sum>q \<leftarrow> ?ps'. spec_rawFactor ?r ?ps' q) = ?total"
      unfolding tot by simp
    have len: "length ?ps' = length ?ps" using same by (rule list_all2_lengthD)
    show "factor p' = spec_factor ?r ?ps' p'"
      unfolding spec_factor_def sum_eq len raw_eq [OF sh]
      by (simp add: p'_def calculatePlayerFactor_spec)
  qed
qed

lemma set_AList_update:
  "x \<in> set (AList.update k v al) \<Longrightarrow> x = (k, v) \<or> x \<in> set al"
  by (induction al) (auto split: if_splits)

lemma updatePlayerParticipation_round [simp]:
  "sel_currentRound (updatePlayerParticipation i sel) = sel_currentRound sel"
  by (simp add: updatePlayerParticipation_def split: option.splits)

lemma updatePlayerParticipation_inv:
  assumes "\<forall>p \<in> snd ` set (participationHistory sel). lastRoundPlayed p \<le> sel_currentRound sel"
  shows "\<forall>p \<in> snd ` set (participationHistory (updatePlayerParticipation i sel)).
           lastRoundPlayed p \<le> sel_currentRound sel"
proof (cases "map_of (participationHistory sel) i")
  case None
  then show ?thesis using assms by (simp add: updatePlayerParticipation_def)
next
  case (Some q)
  show ?thesis
  proof
    fix p
    assume "p \<in> snd ` set (participationHistory (updatePlayerParticipation i sel))"
    then obtain k where "(k, p) \<in> set (AList.update i
        (q\<lparr>lastRoundPlayed := sel_currentRound sel, timesPlayed := timesPlayed q + 1\<rparr>)
        (participationHistory sel))"
      using Some by (auto simp: updatePlayerParticipation_def)
    then have "p = q\<lparr>lastRoundPlayed := sel_currentRound sel, timesPlayed := timesPlayed q + 1\<rparr>
               \<or> (k, p) \<in> set (participationHistory sel)"
      using set_AList_update by fastforce
    then show "lastRoundPlayed p \<le> sel_currentRound sel"
      using assms by force
  qed
qed

lemma selectPlayersForRound_success:
  assumes "selectPlayersForRound objs bluePlayers redPlayers host sel rnd
             = (Inr (bp, rp), sel', rnd')"
  shows "sel' = updateFactors
           (updatePlayerParticipation (player_id (objs ! rp))
              (updatePlayerParticipation (player_id (objs ! bp))
                 (sel\<lparr>sel_currentRound := sel_currentRound sel + 1\<rparr>)))"
  using assms unfolding selectPlayersForRound_def Let_def
  by (auto split: if_splits prod.splits sum.splits)

text \<open>
  C4. Whenever a selection succeeds on a selector whose records satisfy
  \<open>lastRoundPlayed \<le> currentRound\<close> (true after \<open>initialize\<close> and kept by every selection),
  the round counter has been incremented to \<open>r \<ge> 1\<close> and every roster member's factor is
  the specification's normalised factor \<open>max(0.1, raw \<times> rosterSize / \<Sigma>raw)\<close>, where \<open>raw\<close>
  is 2.0 for a player who never played and recency times frequency otherwise, computed
  from the records as they are after the selection. Factors are real numbers here.
\<close>

theorem selectPlayersForRound_factors:
  assumes "\<forall>p \<in> snd ` set (participationHistory sel). lastRoundPlayed p \<le> sel_currentRound sel"
    and "0 \<le> sel_currentRound sel"
    and "selectPlayersForRound objs bluePlayers redPlayers host sel rnd
           = (Inr (bp, rp), sel', rnd')"
  shows "sel_currentRound sel' = sel_currentRound sel + 1 \<and> 1 \<le> sel_currentRound sel'
       \<and> (\<forall>p \<in> snd ` set (participationHistory sel').
             factor p = spec_factor (sel_currentRound sel')
                          (map snd (participationHistory sel')) p)"
proof -
  let ?sel1 = "sel\<lparr>sel_currentRound := sel_currentRound sel + 1\<rparr>"
  let ?sel2 = "updatePlayerParticipation (player_id (objs ! bp)) ?sel1"
  let ?sel3 = "updatePlayerParticipation (player_id (objs ! rp)) ?sel2"
  have sel': "sel' = updateFactors ?sel3"
    using assms(3) by (rule selectPlayersForRound_success)
  have "\<forall>p \<in> snd ` set (participationHistory ?sel1). lastRoundPlayed p \<le> sel_currentRound ?sel1"
    using assms(1) by auto
  then have "\<forall>p \<in> snd ` set (participationHistory ?sel2). lastRoundPlayed p \<le> sel_currentRound ?sel1"
    by (rule updatePlayerParticipation_inv)
  then have "\<forall>p \<in> snd ` set (participationHistory ?sel2). lastRoundPlayed p \<le> sel_currentRound ?sel2"
    by simp
  then have "\<forall>p \<in> snd ` set (participationHistory ?sel3). lastRoundPlayed p \<le> sel_currentRound ?sel2"
    by (rule updatePlayerParticipation_inv)
  then have inv: "\<forall>p \<in> snd ` set (participationHistory ?sel3). lastRoundPlayed p \<le> sel_currentRound ?sel3"
    by simp
  have r: "1 \<le> sel_currentRound ?sel3" using assms(2) by simp
  have rr: "sel_currentRound ?sel3 = sel_currentRound sel + 1" by simp
  show ?thesis
    unfolding sel'
    using updateFactors_spec(1) [OF inv r] updateFactors_spec(4) [OF inv r] assms(2)
    unfolding rr by simp
qed

theorem selectPlayersForRound_factors_witness:
  "\<exists>sel' rnd'.
      selectPlayersForRound threePlayers [0, 2] [1] (Some ''host'') freshSelector (\<lambda>n. 0)
        = (Inr (0, 1), sel', rnd')
    \<and> sel_currentRound sel' = 1
    \<and> map (factor \<circ> snd) (participationHistory sel') = [3 / 4, 3 / 2, 3 / 4]
    \<and> list_all (\<lambda>p. factor p = spec_factor 1 (map snd (participationHistory sel')) p)
         (map snd (participationHistory sel'))"
proof -
  let ?sel' = "\<lparr>participationHistory = [mkParticipation ''a'' 1 1 (3 / 4),
                  mkParticipation ''c'' (-1) 0 (3 / 2), mkParticipation ''b'' 1 1 (3 / 4)],
                sel_currentRound = 1\<rparr>"
  have 1: "\<forall>p \<in> snd ` set (participationHistory freshSelector).
             lastRoundPlayed p \<le> sel_currentRound freshSelector"
    by (simp add: freshSelector_def mkParticipation_def)
  have 2: "0 \<le> sel_currentRound freshSelector" by (simp add: freshSelector_def)
  have 3: "selectPlayersForRound threePlayers [0, 2] [1] (Some ''host'') freshSelector (\<lambda>n. 0)
             = (Inr (0, 1), ?sel', \<lambda>n. 0)"
    by (simp add: selectPlayersForRound_def selectPlayerFromTeam_def threePlayers_def
          mkPlayer_def freshSelector_def mkParticipation_def truthy_def random_def
          updatePlayerParticipation_def updateFactors_def normalizeFactors_def
          calculatePlayerFactor_def getAverageTimesPlayed_def Let_def)
  have "\<forall>p \<in> snd ` set (participationHistory ?sel').
          factor p = spec_factor (sel_currentRound ?sel') (map snd (participationHistory ?sel')) p"
    using selectPlayersForRound_factors [OF 1 2 3] by blast
  then have "list_all (\<lambda>p. factor p = spec_factor 1 (map snd (participationHistory ?sel')) p)
               (map snd (participationHistory ?sel'))"
    by (simp add: list_all_iff)
  with 3 show ?thesis by (simp add: mkParticipation_def)
qed

lemma initialize_threePlayers: "initialize threePlayers [0, 2] [1] = freshSelector"
  by (simp add: initialize_def updateFactors_def threePlayers_def mkPlayer_def
        freshSelector_def mkParticipation_def)

lemma foldl_update_never_played:
  assumes "\<forall>p \<in> snd ` set h. lastRoundPlayed p = -1" and "\<forall>a. lastRoundPlayed (mk a) = -1"
  shows "\<forall>p \<in> snd ` set (foldl (\<lambda>h a. AList.update (key a) (mk a) h) h as).
           lastRoundPlayed p = -1"
  using assms(1)
proof (induction as arbitrary: h)
  case Nil
  then show ?case by simp
next
  case (Cons a as)
  have "\<forall>p \<in> snd ` set (AList.update (key a) (mk a) h). lastRoundPlayed p = -1"
    using Cons.prems assms(2) set_AList_update by fastforce
  then show ?case using Cons.IH by simp
qed

lemma initialize_inv:
  "sel_currentRound (initialize objs bs rs) = 0
   \<and> (\<forall>p \<in> snd ` set (participationHistory (initialize objs bs rs)).
         lastRoundPlayed p \<le> sel_currentRound (initialize objs bs rs))"
proof -
  let ?h = "foldl (\<lambda>h a. AList.update (player_id (objs ! a))
                   \<lparr>pp_playerId = player_id (objs ! a), lastRoundPlayed = -1,
                    timesPlayed = 0, factor = 1.0\<rparr> h) [] (bs @ rs)"
  have "\<forall>p \<in> snd ` set ?h. lastRoundPlayed p = -1"
    by (rule foldl_update_never_played) simp_all
  then show ?thesis
    by (force simp: initialize_def updateFactors_def)
qed

lemma selectPlayersForRound_inv:
  assumes "\<forall>p \<in> snd ` set (participationHistory sel). lastRoundPlayed p \<le> sel_currentRound sel"
    and "0 \<le> sel_currentRound sel"
    and "selectPlayersForRound objs bluePlayers redPlayers host sel rnd = (res, sel', rnd')"
  shows "0 \<le> sel_currentRound sel'
       \<and> (\<forall>p \<in> snd ` set (participationHistory sel'). lastRoundPlayed p \<le> sel_currentRound sel')"
proof (cases res)
  case (Inl e)
  then have "sel' = sel\<lparr>sel_currentRound := sel_currentRound sel + 1\<rparr>"
    using assms(3) unfolding selectPlayersForRound_def Let_def
    by (auto split: if_splits prod.splits sum.splits)
  then show ?thesis using assms(1,2) by force
next
  case (Inr pr)
  obtain bp rp where pr: "pr = (bp, rp)" by (cases pr)
  let ?sel1 = "sel\<lparr>sel_currentRound := sel_currentRound sel + 1\<rparr>"
  let ?sel2 = "updatePlayerParticipation (player_id (objs ! bp)) ?sel1"
  let ?sel3 = "updatePlayerParticipation (player_id (objs ! rp)) ?sel2"
  have sel': "sel' = updateFactors ?sel3"
    using assms(3) unfolding Inr pr by (rule selectPlayersForRound_success)
  have "\<forall>p \<in> snd ` set (participationHistory ?sel1). lastRoundPlayed p \<le> sel_currentRound ?sel1"
    using assms(1) by auto
  then have "\<forall>p \<in> snd ` set (participationHistory ?sel2). lastRoundPlayed p \<le> sel_currentRound ?sel1"
    by (rule updatePlayerParticipation_inv)
  then have "\<forall>p \<in> snd ` set (participationHistory ?sel2). lastRoundPlayed p \<le> sel_currentRound ?sel2"
    by simp
  then have "\<forall>p \<in> snd ` set (participationHistory ?sel3). lastRoundPlayed p \<le> sel_currentRound ?sel2"
    by (rule updatePlayerParticipation_inv)
  then have inv: "\<forall>p \<in> snd ` set (participationHistory ?sel3). lastRoundPlayed p \<le> sel_currentRound ?sel3"
    by simp
  have r: "1 \<le> sel_currentRound ?sel3" using assms(2) by simp
  have same: "list_all2 sameHistory (map snd (participationHistory sel'))
                (map snd (participationHistory ?sel3))"
    unfolding sel' using inv r by (rule updateFactors_spec(2))
  have "lastRoundPlayed p \<le> sel_currentRound ?sel3"
    if "p \<in> snd ` set (participationHistory sel')" for p
  proof -
    from that obtain i where i: "i < length (participationHistory sel')"
      and p: "p = map snd (participationHistory sel') ! i"
      by (auto simp: in_set_conv_nth)
    let ?q = "map snd (participationHistory ?sel3) ! i"
    have "sameHistory p ?q" and "i < length (participationHistory ?sel3)"
      using same i p by (auto simp: list_all2_conv_all_nth)
    then have "lastRoundPlayed p = lastRoundPlayed ?q"
      and "?q \<in> snd ` set (participationHistory ?sel3)"
      by (auto simp: sameHistory_def)
    then show ?thesis using inv by auto
  qed
  then show ?thesis
    using updateFactors_spec(1) [OF inv r] r unfolding sel' by simp
qed

subsection \<open>startRound when a team has no eligible player\<close>

lemma selectPlayerFromTeam_nonempty:
  "plrs \<noteq> [] \<Longrightarrow> \<exists>a. fst (selectPlayerFromTeam objs sel plrs team rnd) = Inr a"
  by (auto simp: selectPlayerFromTeam_def Let_def split_beta split: option.splits)

lemma selectPlayersForRound_failure:
  assumes "selectPlayersForRound objs bluePlayers redPlayers host sel rnd = (Inl e, sel', rnd')"
  shows "(\<exists>t. e = NoEligiblePlayers t) \<and> rnd' = rnd
       \<and> sel' = sel\<lparr>sel_currentRound := sel_currentRound sel + 1\<rparr>"
proof -
  let ?eb = "if truthy host then filter (\<lambda>a. Some (player_id (objs ! a)) \<noteq> host) bluePlayers
             else bluePlayers"
  let ?er = "if truthy host then filter (\<lambda>a. Some (player_id (objs ! a)) \<noteq> host) redPlayers
             else redPlayers"
  let ?sel1 = "sel\<lparr>sel_currentRound := sel_currentRound sel + 1\<rparr>"
  show ?thesis
  proof (cases "?eb = [] \<or> ?er = []")
    case True
    then show ?thesis
      using assms unfolding selectPlayersForRound_def Let_def
      by (auto split: if_splits)
  next
    case False
    then have eb: "?eb \<noteq> []" and er: "?er \<noteq> []" by blast+
    obtain a rnd1 where b: "selectPlayerFromTeam objs ?sel1 ?eb Blue rnd = (Inr a, rnd1)"
      using selectPlayerFromTeam_nonempty [OF eb, of objs ?sel1 Blue rnd]
      by (metis fst_conv surj_pair)
    obtain c rnd2 where r: "selectPlayerFromTeam objs ?sel1 ?er Red rnd1 = (Inr c, rnd2)"
      using selectPlayerFromTeam_nonempty [OF er, of objs ?sel1 Red rnd1]
      by (metis fst_conv surj_pair)
    have "fst (selectPlayersForRound objs bluePlayers redPlayers host sel rnd) = Inr (a, c)"
      unfolding selectPlayersForRound_def Let_def using eb er b r by simp
    with assms show ?thesis by simp
  qed
qed

lemma startRound_failure_state:
  assumes "startRound lobby n sel rnd = (Inl e, lobby', sel', rnd')"
  shows "lobby' = lobby \<and> rnd' = rnd
       \<and> participationHistory sel' = participationHistory sel
       \<and> (if \<exists>t. e = NoEligiblePlayers t
           then sel_currentRound sel' = sel_currentRound sel + 1 else sel' = sel)"
proof (cases "gameState lobby")
  case None
  with assms show ?thesis by (auto simp: startRound_def)
next
  case (Some gs)
  show ?thesis
  proof (cases "n > maxRounds (settings lobby)")
    case True
    with Some assms show ?thesis by (auto simp: startRound_def)
  next
    case False
    obtain res s1 r1 where sp: "selectPlayersForRound (heap lobby) (teams_blue lobby)
        (teams_red lobby) (Some (hostId lobby)) sel rnd = (res, s1, r1)"
      by (cases "selectPlayersForRound (heap lobby) (teams_blue lobby)
        (teams_red lobby) (Some (hostId lobby)) sel rnd") auto
    have "res = Inl e \<and> lobby' = lobby \<and> sel' = s1 \<and> rnd' = r1"
      using assms Some False sp
      by (cases res) (auto simp: startRound_def Let_def split: prod.splits)
    then show ?thesis
      using selectPlayersForRound_failure [of "heap lobby" "teams_blue lobby" "teams_red lobby"
          "Some (hostId lobby)" sel rnd e s1 r1] sp
      by auto
  qed
qed

text \<open>
  C9 (the code departs from the claim). A lobby in a running game whose red team is empty
  (its only player left): \<open>startRound\<close> fails with \<open>NoEligiblePlayers\<close>; the lobby, the
  rounds history and the participation records are as before, but the selector's round
  counter has gone from 0 to 1, because \<open>selectPlayersForRound\<close> increments it before it
  checks the eligible players.
\<close>

theorem startRound_failure_advances_counter:
  "startRound (mkLobby twoPlayers [0] [] (Some (mkGame 1 PhaseWaiting [] 0 0))) 1
     \<lparr>participationHistory = [mkParticipation ''a'' (-1) 0 1, mkParticipation ''b'' (-1) 0 1],
      sel_currentRound = 0\<rparr> (\<lambda>n. 0)
   = (Inl (NoEligiblePlayers Red),
      mkLobby twoPlayers [0] [] (Some (mkGame 1 PhaseWaiting [] 0 0)),
      \<lparr>participationHistory = [mkParticipation ''a'' (-1) 0 1, mkParticipation ''b'' (-1) 0 1],
       sel_currentRound = 1\<rparr>,
      \<lambda>n. 0)"
  by (simp add: startRound_def selectPlayersForRound_def mkLobby_def mkGame_def twoPlayers_def
        mkPlayer_def DEFAULT_GAME_SETTINGS_def truthy_def Let_def)

subsection \<open>calculateRoundResults: the two loops\<close>

lemma frame_refl [simp]: "frame l l"
  by (simp add: frame_def)

lemma frame_findPlayer: "frame l0 l \<Longrightarrow> findPlayer l k = findPlayer l0 k"
  by (simp add: frame_def findPlayer_def)

lemma frame_team: "frame l0 l \<Longrightarrow> player_team (heap l ! i) = player_team (heap l0 ! i)"
  by (simp add: frame_def)

lemma frame_settings: "frame l0 l \<Longrightarrow> settings l = settings l0"
  by (simp add: frame_def)

lemma frame_votersForThisOption:
  "frame l0 l \<Longrightarrow> votersForThisOption l cr opt aid a = votersForThisOption l0 cr opt aid a"
  by (simp add: votersForThisOption_def frame_findPlayer frame_team cong: option.case_cong)

lemma nth_score_update:
  "player_id ((h[j := (h ! j)\<lparr>score := s\<rparr>]) ! i) = player_id (h ! i)
   \<and> player_team ((h[j := (h ! j)\<lparr>score := s\<rparr>]) ! i) = player_team (h ! i)"
  by (cases "j < length h"; cases "i = j") (simp_all add: list_update_beyond)

lemma frame_score:
  "frame l0 l \<Longrightarrow> frame l0 (l\<lparr>heap := (heap l)[j := (heap l ! j)\<lparr>score := s\<rparr>]\<rparr>)"
  by (simp add: frame_def nth_score_update)

lemma frame_processVote:
  "frame l0 (fst st) \<Longrightarrow> frame l0 (fst (processVote cr co st e))"
  by (cases st; cases e) (auto simp: Let_def frame_score split: option.splits)

lemma frame_processOption:
  "frame l0 (fst st) \<Longrightarrow> frame l0 (fst (processOption cr st opt))"
  by (cases st) (auto simp: Let_def frame_score split: option.splits OptionOrigin.splits)

lemma findPlayer_valid:
  "findPlayer l k = Some a \<Longrightarrow> a \<in> set (players l) \<and> player_id (heap l ! a) = k"
  by (auto simp: findPlayer_def find_Some_iff)

lemma teamTotal_addToTeam:
  "teamTotal t (addToTeam t' n res) = teamTotal t res + (if t' = Some t then n else 0)"
  by (cases t; cases t'; simp add: teamTotal_def addToTeam_def split: Team.splits)

lemma processVote_unfold:
  assumes "frame l0 l"
  shows "processVote cr co (l, rp, res) e =
    (if countedVote l0 cr e then
       let player = the (findPlayer l0 (fst e)); n = votePoints l0 (option_id co) e
       in (l\<lparr>heap := (heap l)[player := (heap l ! player)\<lparr>score := score (heap l ! player) + n\<rparr>]\<rparr>,
           AList.update (fst e) n rp,
           addToTeam (voterTeam l0 (fst e)) n
             (res\<lparr>res_votes := AList.update (fst e) (snd e, snd e = option_id co) (res_votes res),
                  res_pointsAwarded := AList.update (fst e) n (res_pointsAwarded res)\<rparr>))
     else (l, rp, res))"
  using assms
  by (cases e)
     (auto simp: countedVote_def optionExists_def votePoints_def voterTeam_def Let_def
        frame_findPlayer frame_team frame_settings split: option.splits)

lemma processOption_unfold:
  assumes "frame l0 l"
  shows "processOption cr (l, rp, res) opt =
    (if optionVoters l0 cr opt \<noteq> [] then
       let authorId = (case origin opt of OriginPlayer i \<Rightarrow> i | _ \<Rightarrow> []);
           author = the (optionAuthor l0 opt); n = optionBonus l0 cr opt
       in (l\<lparr>heap := (heap l)[author := (heap l ! author)\<lparr>score := score (heap l ! author) + n\<rparr>]\<rparr>,
           AList.update authorId (orZero (map_of rp authorId) + n) rp,
           (addToTeam (player_team (heap l0 ! author)) n
              (res\<lparr>res_pointsAwarded :=
                     AList.update authorId (orZero (map_of (res_pointsAwarded res) authorId) + n)
                       (res_pointsAwarded res)\<rparr>))
           \<lparr>confusionResults := AList.update authorId (optionVoters l0 cr opt)
               (confusionResults res)\<rparr>)
     else (l, rp, res))"
  using assms
  by (auto simp: optionVoters_def optionAuthor_def optionBonus_def Let_def addToTeam_def
        frame_findPlayer frame_team frame_settings frame_votersForThisOption
        split: option.splits OptionOrigin.splits Team.splits)

declare processVote.simps [simp del] processOption.simps [simp del]

lemma foldl_invariant:
  assumes "\<And>st x. I st \<Longrightarrow> I (f st x)" and "I st"
  shows "I (foldl f st xs)"
  using assms(2) by (induction xs arbitrary: st) (simp_all add: assms(1))

lemma foldl_unchanged:
  assumes "\<And>st x. I st \<Longrightarrow> I (f st x)" and "\<And>st x. I st \<Longrightarrow> g (f st x) = g st" and "I st"
  shows "g (foldl f st xs) = g st"
  using assms(3) by (induction xs arbitrary: st) (simp_all add: assms(1,2))

lemma foldl_sum:
  fixes g :: "'s \<Rightarrow> int"
  assumes "\<And>st x. I st \<Longrightarrow> I (f st x)" and "\<And>st x. I st \<Longrightarrow> g (f st x) = g st + d x"
    and "I st"
  shows "g (foldl f st xs) = g st + (\<Sum>x \<leftarrow> xs. d x)"
  using assms(3) by (induction xs arbitrary: st) (simp_all add: assms(1,2))

lemma foldl_last_write:
  assumes "\<And>st x. I st \<Longrightarrow> I (f st x)"
    and "\<And>st x. I st \<Longrightarrow> g (f st x) = (if W x then Some (w x) else g st)"
    and "I st"
  shows "g (foldl f st xs)
           = (if filter W xs = [] then g st else Some (w (last (filter W xs))))"
  using assms(3) by (induction xs arbitrary: st) (simp_all add: assms(1,2))

lemma foldl_accumulate:
  assumes "\<And>st x. I st \<Longrightarrow> I (f st x)"
    and "\<And>st x. I st \<Longrightarrow> g (f st x) = (if W x then Some (orZero (g st) + d x) else g st)"
    and "I st"
  shows "g (foldl f st xs)
           = (if filter W xs = [] then g st
              else Some (orZero (g st) + (\<Sum>x \<leftarrow> filter W xs. d x)))"
  using assms(3)
  by (induction xs arbitrary: st) (simp_all add: assms(1,2) orZero_def)


lemma teamTotal_other_fields [simp]:
  "teamTotal t (res\<lparr>res_votes := x\<rparr>) = teamTotal t res"
  "teamTotal t (res\<lparr>res_pointsAwarded := y\<rparr>) = teamTotal t res"
  "teamTotal t (res\<lparr>confusionResults := z\<rparr>) = teamTotal t res"
  by (simp_all add: teamTotal_def split: Team.splits)

lemma teamTotal_processVote:
  assumes "frame l0 (fst st)"
  shows "teamTotal t (snd (snd (processVote cr co st e)))
           = teamTotal t (snd (snd st))
             + (if countedVote l0 cr e \<and> voterTeam l0 (fst e) = Some t
                then votePoints l0 (option_id co) e else 0)"
  using assms
  by (cases st) (simp add: processVote_unfold Let_def teamTotal_addToTeam)

lemma awarded_processVote:
  assumes "frame l0 (fst st)"
  shows "awarded k (processVote cr co st e)
           = (if fst e = k \<and> countedVote l0 cr e then Some (votePoints l0 (option_id co) e)
              else awarded k st)"
  using assms
  by (cases st)
     (auto simp: processVote_unfold Let_def awarded_def addToTeam_def update_conv'
        split: option.splits Team.splits)

lemma votedOf_processVote:
  assumes "frame l0 (fst st)"
  shows "votedOf k (processVote cr co st e)
           = (if fst e = k \<and> countedVote l0 cr e then Some (snd e, snd e = option_id co)
              else votedOf k st)"
  using assms
  by (cases st)
     (auto simp: processVote_unfold Let_def votedOf_def addToTeam_def update_conv'
        split: option.splits Team.splits)

lemma confusionOf_processVote:
  assumes "frame l0 (fst st)"
  shows "confusionOf k (processVote cr co st e) = confusionOf k st"
  using assms
  by (cases st)
     (auto simp: processVote_unfold Let_def confusionOf_def addToTeam_def
        split: option.splits Team.splits)

lemma optionVoters_author:
  "optionVoters l cr opt \<noteq> [] \<Longrightarrow> \<exists>a i. origin opt = OriginPlayer i \<and> findPlayer l i = Some a
      \<and> optionAuthor l opt = Some a"
  by (auto simp: optionVoters_def optionAuthor_def split: OptionOrigin.splits option.splits)

lemma optionBonus_no_voters: "optionVoters l cr opt = [] \<Longrightarrow> optionBonus l cr opt = 0"
  by (simp add: optionBonus_def)


lemma teamTotal_processOption:
  assumes "frame l0 (fst st)"
  shows "teamTotal t (snd (snd (processOption cr st opt)))
           = teamTotal t (snd (snd st))
             + (case optionAuthor l0 opt of
                  None \<Rightarrow> 0
                | Some a \<Rightarrow> if player_team (heap l0 ! a) = Some t then optionBonus l0 cr opt
                            else 0)"
proof -
  obtain l rp res where st: "st = (l, rp, res)" by (cases st)
  show ?thesis
  proof (cases "optionVoters l0 cr opt = []")
    case True
    then show ?thesis
      using assms(1) st
      by (simp add: processOption_unfold optionBonus_no_voters split: option.splits)
  next
    case False
    then obtain p where p: "optionAuthor l0 opt = Some p"
      using optionVoters_author by blast
    show ?thesis
      using assms(1) st False p
      by (simp add: processOption_unfold Let_def teamTotal_addToTeam)
  qed
qed

lemma awarded_processOption:
  assumes "frame l0 (fst st)"
  shows "awarded k (processOption cr st opt)
           = (if origin opt = OriginPlayer k \<and> optionVoters l0 cr opt \<noteq> []
              then Some (orZero (awarded k st) + optionBonus l0 cr opt)
              else awarded k st)"
proof -
  obtain l rp res where st: "st = (l, rp, res)" by (cases st)
  show ?thesis
  proof (cases "optionVoters l0 cr opt = []")
    case True
    then show ?thesis using assms(1) st by (simp add: processOption_unfold)
  next
    case False
    then obtain i where i: "origin opt = OriginPlayer i"
      using optionVoters_author by blast
    show ?thesis
      using assms(1) st False i
      by (auto simp: processOption_unfold Let_def awarded_def addToTeam_def update_conv'
            split: option.splits Team.splits)
  qed
qed

lemma confusionOf_processOption:
  assumes "frame l0 (fst st)"
  shows "confusionOf k (processOption cr st opt)
           = (if origin opt = OriginPlayer k \<and> optionVoters l0 cr opt \<noteq> []
              then Some (optionVoters l0 cr opt)
              else confusionOf k st)"
proof -
  obtain l rp res where st: "st = (l, rp, res)" by (cases st)
  show ?thesis
  proof (cases "optionVoters l0 cr opt = []")
    case True
    then show ?thesis using assms(1) st by (simp add: processOption_unfold)
  next
    case False
    then obtain i where i: "origin opt = OriginPlayer i"
      using optionVoters_author by blast
    show ?thesis
      using assms(1) st False i
      by (auto simp: processOption_unfold Let_def confusionOf_def update_conv')
  qed
qed

lemma votedOf_processOption:
  assumes "frame l0 (fst st)"
  shows "votedOf k (processOption cr st opt) = votedOf k st"
  using assms
  by (cases st)
     (auto simp: processOption_unfold Let_def votedOf_def addToTeam_def
        split: option.splits Team.splits)

subsection \<open>calculateRoundResults: what the loops add up to\<close>

lemma frame_votes_loop:
  "frame l0 (fst st) \<Longrightarrow> frame l0 (fst (foldl (processVote cr co) st vs))"
  by (rule foldl_invariant [where I = "\<lambda>st. frame l0 (fst st)"]) (simp_all add: frame_processVote)

lemma frame_options_loop:
  "frame l0 (fst st) \<Longrightarrow> frame l0 (fst (foldl (processOption cr) st os))"
  by (rule foldl_invariant [where I = "\<lambda>st. frame l0 (fst st)"]) (simp_all add: frame_processOption)

lemma frame_scoringLoops: "frame l (fst (scoringLoops l gs cr co))"
  unfolding scoringLoops_def
  by (intro frame_options_loop frame_votes_loop) simp


lemma teamTotal_scoringLoops:
  "teamTotal t (snd (snd (scoringLoops l gs cr co)))
     = (case t of Blue \<Rightarrow> scores_blue gs | Red \<Rightarrow> scores_red gs)
       + teamVotePoints l cr (option_id co) t + teamBonus l cr t (options cr)"
proof -
  let ?st0 = "(l, pointsAwarded cr, initialResult gs cr co)"
  let ?st1 = "foldl (processVote cr co) ?st0 (votes cr)"
  have 1: "teamTotal t (snd (snd ?st1)) = teamTotal t (snd (snd ?st0))
      + (\<Sum>e \<leftarrow> votes cr. if countedVote l cr e \<and> voterTeam l (fst e) = Some t
                          then votePoints l (option_id co) e else 0)"
    by (rule foldl_sum [where I = "\<lambda>st. frame l (fst st)"])
       (simp_all add: frame_processVote teamTotal_processVote)
  have f1: "frame l (fst ?st1)" by (rule frame_votes_loop) simp
  have 2: "teamTotal t (snd (snd (foldl (processOption cr) ?st1 (options cr))))
      = teamTotal t (snd (snd ?st1))
        + (\<Sum>x \<leftarrow> options cr. case optionAuthor l x of None \<Rightarrow> 0
             | Some a \<Rightarrow> if player_team (heap l ! a) = Some t then optionBonus l cr x else 0)"
    by (rule foldl_sum [where I = "\<lambda>st. frame l (fst st)"])
       (simp_all add: frame_processOption teamTotal_processOption f1)
  show ?thesis
    unfolding scoringLoops_def 2 1
    by (simp add: teamVotePoints_def teamBonus_def teamTotal_def initialResult_def
          split: Team.splits)
qed

lemma awarded_votes_loop:
  "awarded k (foldl (processVote cr co) (l, rp, initialResult gs cr co) (votes cr))
     = (let mine = filter (\<lambda>e. fst e = k \<and> countedVote l cr e) (votes cr)
        in if mine = [] then None else Some (votePoints l (option_id co) (last mine)))"
proof -
  have "awarded k (foldl (processVote cr co) (l, rp, initialResult gs cr co) (votes cr))
      = (if filter (\<lambda>e. fst e = k \<and> countedVote l cr e) (votes cr) = []
         then awarded k (l, rp, initialResult gs cr co)
         else Some (votePoints l (option_id co)
                      (last (filter (\<lambda>e. fst e = k \<and> countedVote l cr e) (votes cr)))))"
    by (rule foldl_last_write [where I = "\<lambda>st. frame l (fst st)"])
       (simp_all add: frame_processVote awarded_processVote)
  then show ?thesis by (simp add: awarded_def initialResult_def Let_def)
qed

lemma votedOf_scoringLoops:
  "votedOf k (scoringLoops l gs cr co)
     = (let mine = filter (\<lambda>e. fst e = k \<and> countedVote l cr e) (votes cr)
        in if mine = [] then None
           else Some (snd (last mine), snd (last mine) = option_id co))"
proof -
  let ?st0 = "(l, pointsAwarded cr, initialResult gs cr co)"
  let ?st1 = "foldl (processVote cr co) ?st0 (votes cr)"
  have 1: "votedOf k ?st1
      = (if filter (\<lambda>e. fst e = k \<and> countedVote l cr e) (votes cr) = []
         then votedOf k ?st0
         else Some ((\<lambda>e. (snd e, snd e = option_id co))
                      (last (filter (\<lambda>e. fst e = k \<and> countedVote l cr e) (votes cr)))))"
    by (rule foldl_last_write [where I = "\<lambda>st. frame l (fst st)"])
       (simp_all add: frame_processVote votedOf_processVote)
  have f1: "frame l (fst ?st1)" by (rule frame_votes_loop) simp
  have 2: "votedOf k (foldl (processOption cr) ?st1 (options cr)) = votedOf k ?st1"
    by (rule foldl_unchanged [where I = "\<lambda>st. frame l (fst st)"])
       (simp_all add: frame_processOption votedOf_processOption f1)
  show ?thesis
    unfolding scoringLoops_def 2 1 by (simp add: votedOf_def initialResult_def Let_def)
qed

lemma awarded_scoringLoops:
  "awarded k (scoringLoops l gs cr co)
     = (let fromVote = awarded k (foldl (processVote cr co)
                          (l, pointsAwarded cr, initialResult gs cr co) (votes cr));
            mine = filter (\<lambda>x. origin x = OriginPlayer k \<and> optionVoters l cr x \<noteq> []) (options cr)
        in if mine = [] then fromVote
           else Some (orZero fromVote + (\<Sum>x \<leftarrow> mine. optionBonus l cr x)))"
proof -
  let ?st1 = "foldl (processVote cr co) (l, pointsAwarded cr, initialResult gs cr co) (votes cr)"
  have f1: "frame l (fst ?st1)" by (rule frame_votes_loop) simp
  have "awarded k (foldl (processOption cr) ?st1 (options cr))
      = (if filter (\<lambda>x. origin x = OriginPlayer k \<and> optionVoters l cr x \<noteq> []) (options cr) = []
         then awarded k ?st1
         else Some (orZero (awarded k ?st1)
               + (\<Sum>x \<leftarrow> filter (\<lambda>x. origin x = OriginPlayer k \<and> optionVoters l cr x \<noteq> [])
                         (options cr). optionBonus l cr x)))"
    by (rule foldl_accumulate [where I = "\<lambda>st. frame l (fst st)"])
       (simp_all add: frame_processOption awarded_processOption f1)
  then show ?thesis by (simp add: scoringLoops_def Let_def)
qed

lemma confusionOf_scoringLoops:
  "confusionOf k (scoringLoops l gs cr co)
     = (let mine = filter (\<lambda>x. origin x = OriginPlayer k \<and> optionVoters l cr x \<noteq> []) (options cr)
        in if mine = [] then None else Some (optionVoters l cr (last mine)))"
proof -
  let ?st0 = "(l, pointsAwarded cr, initialResult gs cr co)"
  let ?st1 = "foldl (processVote cr co) ?st0 (votes cr)"
  have 1: "confusionOf k ?st1 = confusionOf k ?st0"
    by (rule foldl_unchanged [where I = "\<lambda>st. frame l (fst st)"])
       (simp_all add: frame_processVote confusionOf_processVote)
  have f1: "frame l (fst ?st1)" by (rule frame_votes_loop) simp
  have 2: "confusionOf k (foldl (processOption cr) ?st1 (options cr))
      = (if filter (\<lambda>x. origin x = OriginPlayer k \<and> optionVoters l cr x \<noteq> []) (options cr) = []
         then confusionOf k ?st1
         else Some (optionVoters l cr
               (last (filter (\<lambda>x. origin x = OriginPlayer k \<and> optionVoters l cr x \<noteq> [])
                        (options cr)))))"
    by (rule foldl_last_write [where I = "\<lambda>st. frame l (fst st)"])
       (simp_all add: frame_processOption confusionOf_processOption f1)
  show ?thesis
    unfolding scoringLoops_def 2 1 by (simp add: confusionOf_def initialResult_def Let_def)
qed

lemma calculateRoundResults_unfold:
  assumes "gameState l = Some gs" and "getCurrentRound gs = Some cr"
    and "List.find (\<lambda>x. origin x = OriginCorrect) (options cr) = Some co"
  shows "calculateRoundResults l =
    Inr (snd (snd (scoringLoops l gs cr co)),
         (fst (scoringLoops l gs cr co))
           \<lparr>gameState := Some ((setCurrentRound gs
               (cr\<lparr>pointsAwarded := fst (snd (scoringLoops l gs cr co)),
                   round_status := RoundFinished\<rparr>))
               \<lparr>scores_blue := newScores_blue (snd (snd (scoringLoops l gs cr co))),
                scores_red := newScores_red (snd (snd (scoringLoops l gs cr co))),
                phase := PhaseResults\<rparr>)\<rparr>)"
  using assms by (simp add: calculateRoundResults_def split_beta Let_def)

subsection \<open>calculateRoundResults: the confusion bonus of an author\<close>








lemma teamBonus_split:
  "teamBonus l cr t xs = teamBonus l cr t (filter P xs) + teamBonus l cr t (filter (\<lambda>x. \<not> P x) xs)"
  by (induction xs) (simp_all add: teamBonus_def)

lemma correctOptionId_scoringLoops:
  "correctOptionId (snd (snd (scoringLoops l gs cr co))) = option_id co"
proof -
  let ?g = "\<lambda>st :: scoring. correctOptionId (snd (snd st))"
  let ?st0 = "(l, pointsAwarded cr, initialResult gs cr co)"
  let ?st1 = "foldl (processVote cr co) ?st0 (votes cr)"
  have 1: "?g ?st1 = ?g ?st0"
    by (rule foldl_unchanged [where I = "\<lambda>st. frame l (fst st)"])
       (auto simp: frame_processVote processVote_unfold Let_def addToTeam_def
          split: option.splits Team.splits)
  have f1: "frame l (fst ?st1)" by (rule frame_votes_loop) simp
  have 2: "?g (foldl (processOption cr) ?st1 (options cr)) = ?g ?st1"
    by (rule foldl_unchanged [where I = "\<lambda>st. frame l (fst st)"])
       (auto simp: frame_processOption processOption_unfold Let_def addToTeam_def f1
          split: option.splits Team.splits)
  show ?thesis
    unfolding scoringLoops_def 2 1 by (simp add: initialResult_def)
qed




subsection \<open>calculateRoundResults: votes and options of players who left\<close>

lemma processVote_unknown_voter:
  "findPlayer l v = None \<Longrightarrow> processVote cr co (l, rp, res) (v, oid) = (l, rp, res)"
  by (simp add: processVote.simps)

lemma processOption_unknown_author:
  "origin x = OriginPlayer i \<Longrightarrow> findPlayer l i = None
     \<Longrightarrow> processOption cr (l, rp, res) x = (l, rp, res)"
  by (simp add: processOption.simps)

lemma unknown_voter_not_counted:
  "findPlayer l v = None \<Longrightarrow> v \<notin> set (optionVoters l cr x)"
  by (auto simp: optionVoters_def votersForThisOption_def
        split: OptionOrigin.splits option.splits)

lemma foldl_filter_noop:
  assumes "\<And>st x. I st \<Longrightarrow> I (f st x)" and "\<And>st x. I st \<Longrightarrow> \<not> R x \<Longrightarrow> f st x = st"
    and "I st"
  shows "foldl f st (filter R xs) = foldl f st xs"
  using assms(3) by (induction xs arbitrary: st) (simp_all add: assms(1,2))

lemma foldl_cong_invariant:
  assumes "\<And>st x. I st \<Longrightarrow> I (f st x)" and "\<And>st x. I st \<Longrightarrow> f st x = f' st x" and "I st"
  shows "foldl f st xs = foldl f' st xs"
  using assms(3)
proof (induction xs arbitrary: st)
  case Nil
  then show ?case by simp
next
  case (Cons x xs)
  have "I (f st x)" using Cons.prems by (rule assms(1))
  then show ?case using Cons.IH [of "f st x"] assms(2) [OF Cons.prems] by simp
qed

lemma foldl_commute:
  assumes "\<And>st x. f (h st) x = h (f st x)"
  shows "foldl f (h st) xs = h (foldl f st xs)"
  by (induction xs arbitrary: st) (simp_all add: assms)

lemma processVote_options_only:
  "options cr' = options cr \<Longrightarrow> processVote cr' co = processVote cr co"
  by (intro ext) (auto simp: processVote.simps cong: option.case_cong)

lemma votersForThisOption_dropVote:
  assumes "findPlayer l v = None"
  shows "votersForThisOption l (cr\<lparr>votes := filter (\<lambda>e. fst e \<noteq> v) (votes cr)\<rparr>) x aid a
           = votersForThisOption l cr x aid a"
proof -
  have "filter P (map fst (filter Q (filter (\<lambda>e. fst e \<noteq> v) vs)))
          = filter P (map fst (filter Q vs))" if "\<not> P v" for P Q and vs :: "(string \<times> string) list"
    using that by (induction vs) auto
  then show ?thesis
    unfolding votersForThisOption_def using assms by simp
qed

lemma processOption_dropVote:
  assumes "frame l0 (fst st)" and "findPlayer l0 v = None"
  shows "processOption (cr\<lparr>votes := filter (\<lambda>e. fst e \<noteq> v) (votes cr)\<rparr>) st x
           = processOption cr st x"
proof -
  obtain l rp res where st: "st = (l, rp, res)" by (cases st)
  have "findPlayer l v = None" using assms st by (simp add: frame_findPlayer)
  then show ?thesis
    unfolding st processOption.simps
    by (simp add: votersForThisOption_dropVote cong: OptionOrigin.case_cong option.case_cong)
qed

lemma findPlayer_gameState [simp]: "findPlayer (l\<lparr>gameState := g\<rparr>) k = findPlayer l k"
  by (simp add: findPlayer_def)

lemma votersForThisOption_gameState [simp]:
  "votersForThisOption (l\<lparr>gameState := g\<rparr>) cr x aid a = votersForThisOption l cr x aid a"
  by (simp add: votersForThisOption_def cong: option.case_cong)

lemma processVote_withGame:
  "processVote cr co (withGame g st) e = withGame g (processVote cr co st e)"
  by (cases st; cases e)
     (auto simp: withGame_def processVote.simps Let_def split: option.splits)

lemma processOption_withGame:
  "processOption cr (withGame g st) x = withGame g (processOption cr st x)"
  by (cases st)
     (auto simp: withGame_def processOption.simps Let_def
        split: option.splits OptionOrigin.splits)

lemma scoringLoops_gameState:
  "scoringLoops (l\<lparr>gameState := g\<rparr>) gs cr co = withGame g (scoringLoops l gs cr co)"
proof -
  have "(l\<lparr>gameState := g\<rparr>, pointsAwarded cr, initialResult gs cr co)
          = withGame g (l, pointsAwarded cr, initialResult gs cr co)"
    by (simp add: withGame_def)
  then show ?thesis
    unfolding scoringLoops_def
    by (simp add: foldl_commute [where h = "withGame g"] processVote_withGame
          processOption_withGame)
qed

lemma scoringLoops_dropVote:
  assumes "findPlayer l v = None"
    and "scores_blue gs' = scores_blue gs" and "scores_red gs' = scores_red gs"
  shows "scoringLoops l gs' (cr\<lparr>votes := filter (\<lambda>e. fst e \<noteq> v) (votes cr)\<rparr>) co
           = scoringLoops l gs cr co"
proof -
  let ?cr' = "cr\<lparr>votes := filter (\<lambda>e. fst e \<noteq> v) (votes cr)\<rparr>"
  let ?st0 = "(l, pointsAwarded cr, initialResult gs cr co)"
  have init: "initialResult gs' ?cr' co = initialResult gs cr co"
    using assms(2,3) by (simp add: initialResult_def)
  have pv: "processVote ?cr' co = processVote cr co"
    by (rule processVote_options_only) simp
  have 1: "foldl (processVote cr co) ?st0 (filter (\<lambda>e. fst e \<noteq> v) (votes cr))
             = foldl (processVote cr co) ?st0 (votes cr)"
  proof (rule foldl_filter_noop [where I = "\<lambda>st. frame l (fst st)"])
    fix st :: scoring and x :: "string \<times> string"
    assume f: "frame l (fst st)" and "\<not> fst x \<noteq> v"
    then have "findPlayer (fst st) (fst x) = None"
      using assms(1) by (simp add: frame_findPlayer)
    then show "processVote cr co st x = st"
      by (cases st; cases x) (simp add: processVote.simps)
  qed (simp_all add: frame_processVote)
  have f1: "frame l (fst (foldl (processVote cr co) ?st0 (votes cr)))"
    by (rule frame_votes_loop) simp
  have 2: "foldl (processOption ?cr') st (options cr) = foldl (processOption cr) st (options cr)"
    if "frame l (fst st)" for st
    using that
    by (intro foldl_cong_invariant [where I = "\<lambda>st. frame l (fst st)"])
       (simp_all add: frame_processOption processOption_dropVote [OF _ assms(1)]
          del: processOption.simps)
  show ?thesis
    unfolding scoringLoops_def init pv
    by (simp add: 1 2 [OF f1])
qed

lemma find_updateFirst_map:
  "List.find P xs = Some x \<Longrightarrow> P (f x) \<Longrightarrow> List.find P (updateFirst P f xs) = Some (f x)"
  by (induction xs) (auto split: if_splits)

lemma updateFirst_after_set:
  "P y \<Longrightarrow> updateFirst P g (updateFirst P (\<lambda>_. y) xs) = updateFirst P (\<lambda>_. g y) xs"
  by (induction xs) simp_all

lemma updateFirst_set_after:
  "(\<And>x. P x \<Longrightarrow> P (g x)) \<Longrightarrow> updateFirst P (\<lambda>_. y) (updateFirst P g xs) = updateFirst P (\<lambda>_. y) xs"
  by (induction xs) simp_all

lemma teamBonus_unknown_author:
  assumes "findPlayer l ghost = None"
  shows "teamBonus l cr t xs = teamBonus l cr t (filter (\<lambda>x. origin x \<noteq> OriginPlayer ghost) xs)"
proof -
  have "teamBonus l cr t (filter (\<lambda>x. origin x = OriginPlayer ghost) xs) = 0"
    using assms by (induction xs) (simp_all add: teamBonus_def optionAuthor_def)
  then show ?thesis
    using teamBonus_split [of l cr t xs "\<lambda>x. origin x = OriginPlayer ghost"] by simp
qed

text \<open>
  C10. Let \<open>ghost\<close> be an id that matches no player of \<open>lobby.players\<close>. After
  \<open>calculateRoundResults\<close> the result has no entry for \<open>ghost\<close> in its votes, points and
  confusion maps; \<open>ghost\<close> is among the counted voters of no option; running the function
  on the lobby without \<open>ghost\<close>'s vote gives the same result and the same lobby (up to
  that vote), so the vote adds nothing to any player or team; every option authored by
  \<open>ghost\<close> has bonus 0, and each team total is the old score plus the vote points of the
  team plus the bonuses of the options not authored by \<open>ghost\<close>.
\<close>

theorem calculateRoundResults_skips_unknown_players:
  assumes gs: "gameState lobby = Some gs" and cr: "getCurrentRound gs = Some cr"
    and run: "calculateRoundResults lobby = Inr (result, lobby')"
    and ghost: "findPlayer lobby ghost = None"
  shows "map_of (res_votes result) ghost = None
       \<and> map_of (res_pointsAwarded result) ghost = None
       \<and> map_of (confusionResults result) ghost = None
       \<and> list_all (\<lambda>x. ghost \<notin> set (optionVoters lobby cr x)) (options cr)
       \<and> calculateRoundResults (dropVote ghost lobby) = Inr (result, dropVote ghost lobby')
       \<and> list_all (\<lambda>x. optionBonus lobby cr x = 0)
            (filter (\<lambda>x. origin x = OriginPlayer ghost) (options cr))
       \<and> (\<forall>t. teamTotal t result
                = (case t of Blue \<Rightarrow> scores_blue gs | Red \<Rightarrow> scores_red gs)
                  + teamVotePoints lobby cr (correctOptionId result) t
                  + teamBonus lobby cr t
                      (filter (\<lambda>x. origin x \<noteq> OriginPlayer ghost) (options cr)))"
proof -
  obtain co where co: "List.find (\<lambda>x. origin x = OriginCorrect) (options cr) = Some co"
    using run gs cr by (auto simp: calculateRoundResults_def split: option.splits)
  let ?st = "scoringLoops lobby gs cr co"
  let ?drop = "\<lambda>r. r\<lparr>votes := filter (\<lambda>e. fst e \<noteq> ghost) (votes r)\<rparr>"
  let ?P = "\<lambda>r. round_number r = currentRound gs"
  let ?gsD = "gs\<lparr>rounds := updateFirst ?P ?drop (rounds gs)\<rparr>"
  note unfold = calculateRoundResults_unfold [OF gs cr co]
  have result: "result = snd (snd ?st)" using run unfold by simp
  have lobby': "lobby' = (fst ?st)
           \<lparr>gameState := Some ((setCurrentRound gs
               (cr\<lparr>pointsAwarded := fst (snd ?st), round_status := RoundFinished\<rparr>))
               \<lparr>scores_blue := newScores_blue (snd (snd ?st)),
                scores_red := newScores_red (snd (snd ?st)),
                phase := PhaseResults\<rparr>)\<rparr>"
    using run unfold by auto
  have no_vote: "filter (\<lambda>e. fst e = ghost \<and> countedVote lobby cr e) (votes cr) = []"
    using ghost by (simp add: countedVote_def filter_empty_conv)
  have no_option:
    "filter (\<lambda>x. origin x = OriginPlayer ghost \<and> optionVoters lobby cr x \<noteq> []) (options cr) = []"
    using ghost by (auto simp: optionVoters_def filter_empty_conv)
  have 1: "map_of (res_votes result) ghost = None"
    using votedOf_scoringLoops [of ghost lobby gs cr co]
    unfolding no_vote result by (simp add: votedOf_def)
  have "awarded ghost (foldl (processVote cr co)
          (lobby, pointsAwarded cr, initialResult gs cr co) (votes cr)) = None"
    unfolding awarded_votes_loop no_vote by simp
  then have 2: "map_of (res_pointsAwarded result) ghost = None"
    using awarded_scoringLoops [of ghost lobby gs cr co]
    unfolding no_option result by (simp add: awarded_def)
  have 3: "map_of (confusionResults result) ghost = None"
    using confusionOf_scoringLoops [of ghost lobby gs cr co]
    unfolding no_option result by (simp add: confusionOf_def)
  have 4: "list_all (\<lambda>x. ghost \<notin> set (optionVoters lobby cr x)) (options cr)"
    using unknown_voter_not_counted [OF ghost] by (simp add: list_all_iff)
  have 6: "list_all (\<lambda>x. optionBonus lobby cr x = 0)
             (filter (\<lambda>x. origin x = OriginPlayer ghost) (options cr))"
    using ghost by (auto simp: list_all_iff optionBonus_def optionVoters_def)
  have cid: "correctOptionId result = option_id co"
    unfolding result by (rule correctOptionId_scoringLoops)
  have 7: "teamTotal t result
             = (case t of Blue \<Rightarrow> scores_blue gs | Red \<Rightarrow> scores_red gs)
               + teamVotePoints lobby cr (correctOptionId result) t
               + teamBonus lobby cr t
                   (filter (\<lambda>x. origin x \<noteq> OriginPlayer ghost) (options cr))" for t
    unfolding cid unfolding result teamTotal_scoringLoops
    using teamBonus_unknown_author [OF ghost, of cr t "options cr"] by simp
  have lD: "dropVote ghost lobby = lobby\<lparr>gameState := Some ?gsD\<rparr>"
    using gs by (simp add: dropVote_def)
  have gsD: "gameState (dropVote ghost lobby) = Some ?gsD"
    by (simp add: lD)
  have "List.find ?P (updateFirst ?P ?drop (rounds gs)) = Some (?drop cr)"
    using cr unfolding getCurrentRound_def
    by (intro find_updateFirst_map) (auto simp: find_Some_iff)
  then have crD: "getCurrentRound ?gsD = Some (?drop cr)"
    by (simp add: getCurrentRound_def)
  have coD: "List.find (\<lambda>x. origin x = OriginCorrect) (options (?drop cr)) = Some co"
    using co by simp
  have ghostD: "findPlayer (dropVote ghost lobby) ghost = None"
    using ghost by (simp add: lD)
  have stD: "scoringLoops (dropVote ghost lobby) ?gsD (?drop cr) co
               = withGame (Some ?gsD) ?st"
    using scoringLoops_dropVote [OF ghostD, of ?gsD gs cr co]
    by (simp add: lD scoringLoops_gameState)
  have Pcr: "?P cr"
    using cr unfolding getCurrentRound_def by (auto simp: find_Some_iff)
  have rounds_eq: "cr\<lparr>votes := vs, pointsAwarded := pa, round_status := rs\<rparr>
                     = cr\<lparr>pointsAwarded := pa, round_status := rs, votes := vs\<rparr>" for vs pa rs
    by (rule BullRound.equality) simp_all
  have game_eq: "gs\<lparr>rounds := rds, scores_blue := b, scores_red := r, phase := ph\<rparr>
                   = gs\<lparr>scores_blue := b, scores_red := r, phase := ph, rounds := rds\<rparr>"
    for rds b r ph
    by (rule BullGameState.equality) simp_all
  have 5: "calculateRoundResults (dropVote ghost lobby) = Inr (result, dropVote ghost lobby')"
    unfolding calculateRoundResults_unfold [OF gsD crD coD] stD result lobby'
    using Pcr
    by (simp add: withGame_def dropVote_def setCurrentRound_def updateFirst_after_set
          updateFirst_set_after rounds_eq game_eq)
  show ?thesis
    using 1 2 3 4 5 6 7 by blast
qed

theorem calculateRoundResults_skips_unknown_players_witness:
  "\<exists>result lobby'.
      calculateRoundResults
        (votingLobby [(''a'', ''o2''), (''ghost'', ''o1''), (''b'', ''o1'')])
        = Inr (result, lobby')
    \<and> map_of (res_votes result) ''ghost'' = None
    \<and> calculateRoundResults (votingLobby [(''a'', ''o2''), (''b'', ''o1'')])
        = Inr (result, dropVote ''ghost'' lobby')"
proof -
  let ?vs = "[(''a'', ''o2''), (''ghost'', ''o1''), (''b'', ''o1'')]"
  let ?cr = "votingRound\<lparr>votes := ?vs\<rparr>"
  let ?gs = "mkGame 1 PhaseVoting [?cr] 0 0"
  let ?l = "votingLobby ?vs"
  let ?co = "mkOption ''o2'' ''Fay'' OriginCorrect 2"
  have gs: "gameState ?l = Some ?gs" by (simp add: votingLobby_def mkLobby_def)
  have cr: "getCurrentRound ?gs = Some ?cr"
    by (simp add: getCurrentRound_def mkGame_def votingRound_def mkRound_def)
  have co: "List.find (\<lambda>x. origin x = OriginCorrect) (options ?cr) = Some ?co"
    by (simp add: votingRound_def mkOption_def)
  have ghost: "findPlayer ?l ''ghost'' = None"
    by (simp add: findPlayer_def votingLobby_def mkLobby_def fourPlayers_def mkPlayer_def upt_rec)
  obtain result lobby' where run: "calculateRoundResults ?l = Inr (result, lobby')"
    using calculateRoundResults_unfold [OF gs cr co] by blast
  have drop: "dropVote ''ghost'' ?l = votingLobby [(''a'', ''o2''), (''b'', ''o1'')]"
    by (simp add: dropVote_def votingLobby_def mkLobby_def mkGame_def votingRound_def
          mkRound_def)
  show ?thesis
    using calculateRoundResults_skips_unknown_players [OF gs cr run ghost] run
    unfolding drop by blast
qed

subsection \<open>Team lists and the team of each player\<close>

lemma sameTeams_refl [simp]: "sameTeams l l"
  by (simp add: sameTeams_def)

lemma sameTeams_findPlayer: "sameTeams l l' \<Longrightarrow> findPlayer l' k = findPlayer l k"
  by (simp add: sameTeams_def findPlayer_def)

lemma sameTeams_getTeam: "sameTeams l l' \<Longrightarrow> getTeam t l' = getTeam t l"
  by (simp add: sameTeams_def getTeam_def split: Team.splits)

lemma sameTeams_lobbyInv:
  assumes "sameTeams l l'" and "lobbyInv l"
  shows "lobbyInv l'"
  using assms(2) sameTeams_findPlayer [OF assms(1)] sameTeams_getTeam [OF assms(1)]
  using assms(1) unfolding lobbyInv_def sameTeams_def by simp

lemma sameTeams_other_fields [simp]:
  "sameTeams l (l\<lparr>gameState := g\<rparr>)"
  "sameTeams l (l\<lparr>status := s\<rparr>)"
  "sameTeams l (l\<lparr>settings := c\<rparr>)"
  "sameTeams l (l\<lparr>gameState := g, status := s\<rparr>)"
  by (simp_all add: sameTeams_def)

lemma sameTeams_trans: "sameTeams l l' \<Longrightarrow> sameTeams l' l'' \<Longrightarrow> sameTeams l l''"
  by (simp add: sameTeams_def)

lemma nth_update_keeps:
  assumes "\<And>x. g (f x) = g x"
  shows "g ((h[j := f (h ! j)]) ! i) = g (h ! i)"
  by (cases "j < length h"; cases "i = j") (simp_all add: assms list_update_beyond)

lemma sameTeams_heap_update:
  assumes "\<And>x. player_id (f x) = player_id x" and "\<And>x. player_team (f x) = player_team x"
  shows "sameTeams l (l\<lparr>heap := (heap l)[j := f (heap l ! j)]\<rparr>)"
  unfolding sameTeams_def
  using nth_update_keeps [of player_id f, OF assms(1)] nth_update_keeps [of player_team f, OF assms(2)]
  by simp

lemma frame_sameTeams: "frame l l' \<Longrightarrow> sameTeams l l'"
  by (simp add: frame_def sameTeams_def)

lemma sameTeams_toggleReady: "toggleReady l i = Inr l' \<Longrightarrow> sameTeams l l'"
  using sameTeams_heap_update [of "\<lambda>p. p\<lparr>isReady := b\<rparr>" for b]
  by (auto simp: toggleReady_def split: sum.splits if_splits)

lemma sameTeams_updateGameSettings: "updateGameSettings l i p = Inr l' \<Longrightarrow> sameTeams l l'"
  by (auto simp: updateGameSettings_def split: if_splits)

lemma sameTeams_updatePlayerSocket: "sameTeams l (updatePlayerSocket l i sock)"
  using sameTeams_heap_update [of "\<lambda>p. p\<lparr>socketId := sock, isConnected := True\<rparr>"]
  by (auto simp: updatePlayerSocket_def split: option.splits)

lemma sameTeams_markPlayerDisconnected: "sameTeams l (markPlayerDisconnected l sock)"
  using sameTeams_heap_update [of "\<lambda>p. p\<lparr>isConnected := False\<rparr>"]
  by (auto simp: markPlayerDisconnected_def split: option.splits)

lemma sameTeams_startGame: "startGame l sel = (r, l', sel') \<Longrightarrow> sameTeams l l'"
  by (auto simp: startGame_def Let_def split: if_splits)

lemma sameTeams_startRound: "startRound l n sel rnd = (r, l', sel', rnd') \<Longrightarrow> sameTeams l l'"
  by (auto simp: startRound_def Let_def split: option.splits if_splits prod.splits sum.splits)

lemma sameTeams_submitAnswer: "submitAnswer l i a = Inr l' \<Longrightarrow> sameTeams l l'"
  by (auto simp: submitAnswer_def Let_def split: option.splits if_splits)

lemma sameTeams_markPlayerReady: "markPlayerReady l i = Inr l' \<Longrightarrow> sameTeams l l'"
  by (auto simp: markPlayerReady_def Let_def split: option.splits if_splits)

lemma sameTeams_prepareVotingOptions:
  "prepareVotingOptions l rnd = Inr ((os, l'), rnd') \<Longrightarrow> sameTeams l l'"
  by (auto simp: prepareVotingOptions_def Let_def split: option.splits prod.splits)

lemma sameTeams_submitVote: "submitVote l i x = Inr l' \<Longrightarrow> sameTeams l l'"
  by (auto simp: submitVote_def Let_def split: option.splits if_splits)

lemma sameTeams_calculateRoundResults:
  assumes "calculateRoundResults l = Inr (res, l')"
  shows "sameTeams l l'"
proof -
  obtain gs cr co where "gameState l = Some gs" "getCurrentRound gs = Some cr"
    "List.find (\<lambda>x. origin x = OriginCorrect) (options cr) = Some co"
    using assms by (auto simp: calculateRoundResults_def split: option.splits)
  then have "\<exists>g. l' = (fst (scoringLoops l gs cr co))\<lparr>gameState := g\<rparr>"
    using assms calculateRoundResults_unfold by fastforce
  then obtain g where l': "l' = (fst (scoringLoops l gs cr co))\<lparr>gameState := g\<rparr>" ..
  have "sameTeams l (fst (scoringLoops l gs cr co))"
    by (rule frame_sameTeams) (rule frame_scoringLoops)
  then show ?thesis
    unfolding l' by (rule sameTeams_trans) simp
qed

lemma sameTeams_finishGame: "finishGame l = Inr (res, l') \<Longrightarrow> sameTeams l l'"
  by (auto simp: finishGame_def Let_def split: option.splits)

lemma sameTeams_resetGame: "sameTeams l (resetGame l)"
proof -
  let ?f = "\<lambda>h a. h[a := (h ! a)\<lparr>score := 0, isReady := False\<rparr>]"
  have "sameTeams l (l\<lparr>heap := foldl ?f h as\<rparr>)" if "sameTeams l (l\<lparr>heap := h\<rparr>)" for h as
    using that
  proof (induction as arbitrary: h)
    case Nil
    then show ?case by simp
  next
    case (Cons a as)
    have "sameTeams (l\<lparr>heap := h\<rparr>) (l\<lparr>heap := h\<rparr>\<lparr>heap := (heap (l\<lparr>heap := h\<rparr>))
              [a := (\<lambda>p. p\<lparr>score := 0, isReady := False\<rparr>) (heap (l\<lparr>heap := h\<rparr>) ! a)]\<rparr>)"
      by (rule sameTeams_heap_update) simp_all
    then have "sameTeams l (l\<lparr>heap := ?f h a\<rparr>)"
      using Cons.prems sameTeams_trans by fastforce
    then show ?case using Cons.IH by simp
  qed
  from this [of "heap l" "players l"] have "sameTeams l (l\<lparr>heap := foldl ?f (heap l) (players l)\<rparr>)"
    by simp
  then show ?thesis
    unfolding resetGame_def by (simp add: sameTeams_def)
qed

lemma sameTeams_nextRoundNumber: "sameTeams l (nextRoundNumber l)"
  by (simp add: nextRoundNumber_def)

lemma find_snoc:
  "List.find P (xs @ [y])
     = (case List.find P xs of Some x \<Rightarrow> Some x | None \<Rightarrow> if P y then Some y else None)"
  by (induction xs) simp_all

lemma findIndex_Some:
  "findIndex P xs = Some i \<Longrightarrow> i < length xs \<and> P (xs ! i) \<and> List.find P xs = Some (xs ! i)"
proof (induction xs arbitrary: i)
  case Nil
  then show ?case by simp
next
  case (Cons x xs)
  then show ?case by (cases "P x") auto
qed

lemma find_remove_nth:
  "i < length xs \<Longrightarrow> \<not> P (xs ! i) \<Longrightarrow> List.find P (take i xs @ drop (Suc i) xs) = List.find P xs"
proof (induction xs arbitrary: i)
  case Nil
  then show ?case by simp
next
  case (Cons x xs)
  then show ?case by (cases i) simp_all
qed

lemma set_remove_nth: "set (take i xs @ drop (Suc i) xs) \<subseteq> set xs"
  by (metis Un_least set_append set_drop_subset set_take_subset)

lemma getTeam_setTeam [simp]:
  "getTeam u (setTeam t as l) = (if u = t then as else getTeam u l)"
  by (cases t; cases u) (simp_all add: getTeam_def setTeam_def)

lemma setTeam_fields [simp]:
  "players (setTeam t as l) = players l"
  "heap (setTeam t as l) = heap l"
  "status (setTeam t as l) = status l"
  by (cases t; simp add: setTeam_def)+

lemma getTeam_fields [simp]:
  "getTeam u (l\<lparr>heap := h\<rparr>) = getTeam u l"
  "getTeam u (l\<lparr>players := ps\<rparr>) = getTeam u l"
  "getTeam u (l\<lparr>hostId := i\<rparr>) = getTeam u l"
  by (simp_all add: getTeam_def split: Team.splits)

lemma findPlayer_setTeam [simp]: "findPlayer (setTeam t as l) k = findPlayer l k"
  by (simp add: findPlayer_def)

lemma lobbyInv_createLobby: "createLobby c sock rnd = (l, h, rnd') \<Longrightarrow> lobbyInv l"
  by (auto simp: createLobby_def lobbyInv_def getTeam_def split_beta split: Team.splits)

lemma lobbyInv_joinLobby:
  assumes "lobbyInv l" and "joinLobby l name sock rnd = Inr (l', i, rnd')"
  shows "lobbyInv l'"
proof -
  obtain np where l': "l' = l\<lparr>heap := heap l @ [np], players := players l @ [length (heap l)]\<rparr>"
    using assms(2) by (auto simp: joinLobby_def Let_def split_beta split: if_splits)
  have valid: "\<forall>a \<in> set (players l). a < length (heap l)"
    using assms(1) by (simp add: lobbyInv_def)
  have old: "heap l' ! a = heap l ! a" if "a \<in> set (players l)" for a
    using that valid by (simp add: l' nth_append)
  have fp: "findPlayer l' k = Some a" if "findPlayer l k = Some a" for k a
  proof -
    have "List.find (\<lambda>a. player_id (heap l' ! a) = k) (players l)
            = List.find (\<lambda>a. player_id (heap l ! a) = k) (players l)"
      by (rule find_cong) (simp_all add: old)
    then show ?thesis
      using that by (simp add: findPlayer_def l' find_snoc)
  qed
  show ?thesis
    unfolding lobbyInv_def
  proof (intro conjI allI ballI)
    fix a assume "a \<in> set (players l')"
    then show "a < length (heap l')" using valid by (auto simp: l')
  next
    fix t a assume a: "a \<in> set (getTeam t l')"
    then have a': "a \<in> set (getTeam t l)" by (simp add: l')
    then have t: "player_team (heap l ! a) = Some t"
      and f: "findPlayer l (player_id (heap l ! a)) = Some a"
      using assms(1) by (auto simp: lobbyInv_def)
    have "a \<in> set (players l)" using f findPlayer_valid by blast
    then have same: "heap l' ! a = heap l ! a" by (rule old)
    show "player_team (heap l' ! a) = Some t" using t same by simp
    show "findPlayer l' (player_id (heap l' ! a)) = Some a"
      unfolding same using f by (rule fp)
  qed
qed

lemma no_entry_after_filter:
  assumes inv: "lobbyInv l" and p: "findPlayer l pid = Some p"
  defines "l1 \<equiv> (case player_team (heap l ! p) of
                    None \<Rightarrow> l
                  | Some t0 \<Rightarrow> setTeam t0 (filter (\<lambda>a. player_id (heap l ! a) \<noteq> pid)
                                           (getTeam t0 l)) l)"
  shows "\<forall>u. \<forall>a \<in> set (getTeam u l1).
           a \<in> set (getTeam u l) \<and> player_id (heap l ! a) \<noteq> pid"
proof (intro allI ballI)
  fix u a assume a: "a \<in> set (getTeam u l1)"
  have sub: "a \<in> set (getTeam u l)"
    using a unfolding l1_def by (auto split: option.splits if_splits)
  then have t: "player_team (heap l ! a) = Some u"
    and f: "findPlayer l (player_id (heap l ! a)) = Some a"
    using inv by (auto simp: lobbyInv_def)
  have "player_id (heap l ! a) \<noteq> pid"
  proof
    assume eq: "player_id (heap l ! a) = pid"
    then have "a = p" using f p by simp
    then have "player_team (heap l ! p) = Some u" using t by simp
    then have "getTeam u l1 = filter (\<lambda>a. player_id (heap l ! a) \<noteq> pid) (getTeam u l)"
      unfolding l1_def by simp
    then show False using a eq by simp
  qed
  with sub show "a \<in> set (getTeam u l) \<and> player_id (heap l ! a) \<noteq> pid" by simp
qed

lemma lobbyInv_selectTeam:
  assumes inv: "lobbyInv l" and sel: "selectTeam l pid t = Inr l'"
  shows "lobbyInv l' \<and> pid \<in> teamIds t l'"
proof -
  obtain p where p: "findPlayer l pid = Some p"
    using sel by (auto simp: selectTeam_def getPlayer_def split: option.splits)
  define l1 where "l1 = (case player_team (heap l ! p) of
                    None \<Rightarrow> l
                  | Some t0 \<Rightarrow> setTeam t0 (filter (\<lambda>a. player_id (heap l ! a) \<noteq> pid)
                                           (getTeam t0 l)) l)"
  define l2 where "l2 = l1\<lparr>heap := (heap l1)[p := (heap l1 ! p)\<lparr>player_team := Some t\<rparr>]\<rparr>"
  have l': "l' = setTeam t (getTeam t l2 @ [p]) l2"
    using sel p unfolding l1_def l2_def
    by (auto simp: selectTeam_def getPlayer_def Let_def split: if_splits)
  have h1: "heap l1 = heap l" and ps1: "players l1 = players l"
    unfolding l1_def by (auto split: option.splits)
  have pv: "p \<in> set (players l)" and pid: "player_id (heap l ! p) = pid"
    using p findPlayer_valid by blast+
  have plen: "p < length (heap l)" using pv inv by (simp add: lobbyInv_def)
  have ids: "player_id (heap l' ! i) = player_id (heap l ! i)" for i
    unfolding l' l2_def
    using nth_update_keeps [of player_id "\<lambda>x. x\<lparr>player_team := Some t\<rparr>" "heap l" p i]
    by (simp add: h1)
  have team_p: "player_team (heap l' ! p) = Some t"
    unfolding l' l2_def using plen by (simp add: h1)
  have team_other: "player_team (heap l' ! a) = player_team (heap l ! a)" if "a \<noteq> p" for a
    unfolding l' l2_def using that by (simp add: h1)
  have fp: "findPlayer l' k = findPlayer l k" for k
    unfolding findPlayer_def ids
    by (simp add: l' l2_def ps1)
  have rest: "\<forall>u. \<forall>a \<in> set (getTeam u l1).
                a \<in> set (getTeam u l) \<and> player_id (heap l ! a) \<noteq> pid"
    unfolding l1_def using inv p by (rule no_entry_after_filter)
  have teams': "set (getTeam u l') \<subseteq> set (getTeam u l1) \<union> (if u = t then {p} else {})" for u
    unfolding l' l2_def by auto
  have "lobbyInv l'"
    unfolding lobbyInv_def
  proof (intro conjI allI ballI)
    fix a assume "a \<in> set (players l')"
    then show "a < length (heap l')"
      using inv unfolding l' l2_def by (simp add: lobbyInv_def h1 ps1)
  next
    fix u a assume a: "a \<in> set (getTeam u l')"
    show "player_team (heap l' ! a) = Some u"
    proof (cases "a \<in> set (getTeam u l1)")
      case True
      then have "a \<in> set (getTeam u l)" "player_id (heap l ! a) \<noteq> pid" using rest by blast+
      then have "player_team (heap l ! a) = Some u" "a \<noteq> p"
        using inv pid by (auto simp: lobbyInv_def)
      then show ?thesis using team_other by simp
    next
      case False
      then have "u = t \<and> a = p" using a teams' [of u] by (auto split: if_splits)
      then show ?thesis using team_p by simp
    qed
    show "findPlayer l' (player_id (heap l' ! a)) = Some a"
    proof (cases "a \<in> set (getTeam u l1)")
      case True
      then have "a \<in> set (getTeam u l)" using rest by blast
      then show ?thesis using inv by (simp add: fp ids lobbyInv_def)
    next
      case False
      then have "a = p" using a teams' [of u] by (auto split: if_splits)
      then show ?thesis using p pid by (simp add: fp ids)
    qed
  qed
  moreover have "pid \<in> teamIds t l'"
  proof -
    have "p \<in> set (getTeam t l')" by (simp add: l')
    then show ?thesis using ids [of p] pid by (force simp: teamIds_def)
  qed
  ultimately show ?thesis by simp
qed

lemma lobbyInv_leaveLobby:
  assumes inv: "lobbyInv l" and leave: "leaveLobby l pid = (Some l', w)"
    and found: "findPlayer l pid \<noteq> None"
  shows "lobbyInv l' \<and> (\<forall>u. pid \<notin> teamIds u l')"
proof -
  let ?P = "\<lambda>a. player_id (heap l ! a) = pid"
  obtain idx where idx: "findIndex ?P (players l) = Some idx"
  proof (cases "findIndex ?P (players l)")
    case None
    have "findIndex P xs = None \<Longrightarrow> List.find P xs = None" for P and xs :: "addr list"
      by (induction xs) (auto split: if_splits)
    then show ?thesis using None found by (simp add: findPlayer_def)
  next
    case (Some i)
    then show ?thesis using that by simp
  qed
  define p where "p = players l ! idx"
  have ilen: "idx < length (players l)" and p: "findPlayer l pid = Some p"
    using findIndex_Some [OF idx] by (simp_all add: findPlayer_def p_def)
  have pid: "player_id (heap l ! p) = pid" using p findPlayer_valid by blast
  define l1 where "l1 = (case player_team (heap l ! p) of
                    None \<Rightarrow> l
                  | Some t0 \<Rightarrow> setTeam t0 (filter (\<lambda>a. player_id (heap l ! a) \<noteq> pid)
                                           (getTeam t0 l)) l)"
  define l2 where "l2 = l1\<lparr>players := take idx (players l1) @ drop (Suc idx) (players l1)\<rparr>"
  have h1: "heap l1 = heap l" and ps1: "players l1 = players l"
    unfolding l1_def by (auto split: option.splits)
  have rest: "\<forall>u. \<forall>a \<in> set (getTeam u l1).
                a \<in> set (getTeam u l) \<and> player_id (heap l ! a) \<noteq> pid"
    unfolding l1_def using inv p by (rule no_entry_after_filter)
  have inv2: "lobbyInv l2"
    unfolding lobbyInv_def
  proof (intro conjI allI ballI)
    fix a assume "a \<in> set (players l2)"
    then have "a \<in> set (players l)"
      unfolding l2_def using set_remove_nth [of idx "players l"] by (auto simp: ps1)
    then show "a < length (heap l2)"
      using inv by (simp add: lobbyInv_def l2_def h1)
  next
    fix u a assume "a \<in> set (getTeam u l2)"
    then have a1: "a \<in> set (getTeam u l1)" by (simp add: l2_def)
    then have a: "a \<in> set (getTeam u l)" and ne: "player_id (heap l ! a) \<noteq> pid"
      using rest by blast+
    then have t: "player_team (heap l ! a) = Some u"
      and f: "findPlayer l (player_id (heap l ! a)) = Some a"
      using inv by (auto simp: lobbyInv_def)
    show "player_team (heap l2 ! a) = Some u" using t by (simp add: l2_def h1)
    have "List.find (\<lambda>x. player_id (heap l ! x) = player_id (heap l ! a))
            (take idx (players l) @ drop (Suc idx) (players l))
          = List.find (\<lambda>x. player_id (heap l ! x) = player_id (heap l ! a)) (players l)"
      using ilen ne pid by (intro find_remove_nth) (simp_all add: p_def)
    then show "findPlayer l2 (player_id (heap l2 ! a)) = Some a"
      using f by (simp add: findPlayer_def l2_def h1 ps1)
  qed
  have none2: "pid \<notin> teamIds u l2" for u
    using rest by (auto simp: teamIds_def l2_def h1)
  have "sameTeams l2 l'"
  proof -
    have "l' = l2 \<or> (\<exists>j i. l' = l2\<lparr>heap := (heap l2)[j := (heap l2 ! j)\<lparr>isHost := True\<rparr>],
                                   hostId := i\<rparr>)"
      using leave idx unfolding l1_def l2_def p_def
      by (auto simp: leaveLobby_def Let_def split: if_splits)
    moreover have "sameTeams l2 (l2\<lparr>heap := (heap l2)[j := (heap l2 ! j)\<lparr>isHost := True\<rparr>],
                                   hostId := i\<rparr>)" for j i
      using sameTeams_heap_update [of "\<lambda>x. x\<lparr>isHost := True\<rparr>" l2 j]
      by (simp add: sameTeams_def)
    ultimately show ?thesis by auto
  qed
  then have st: "sameTeams l2 l'" .
  have "lobbyInv l'" using st inv2 by (rule sameTeams_lobbyInv)
  moreover have "teamIds u l' = teamIds u l2" for u
    unfolding teamIds_def sameTeams_getTeam [OF st]
    using st by (simp add: sameTeams_def)
  ultimately show ?thesis using none2 by simp
qed

lemma lobbyInv_leaveLobby_unknown:
  "leaveLobby l pid = (Some l', w) \<Longrightarrow> findPlayer l pid = None \<Longrightarrow> l' = l"
proof -
  have "List.find P xs = None \<Longrightarrow> findIndex P xs = None" for P and xs :: "addr list"
    by (induction xs) (auto split: if_splits)
  then show "leaveLobby l pid = (Some l', w) \<Longrightarrow> findPlayer l pid = None \<Longrightarrow> l' = l"
    by (simp add: leaveLobby_def findPlayer_def)
qed

lemma lobbyInv_teamsConsistent:
  assumes "lobbyInv l"
  shows "teamsConsistent l"
proof -
  have "x \<notin> teamIds Blue l \<inter> teamIds Red l" for x
  proof
    assume "x \<in> teamIds Blue l \<inter> teamIds Red l"
    then obtain a b where a: "a \<in> set (getTeam Blue l)" "player_id (heap l ! a) = x"
      and b: "b \<in> set (getTeam Red l)" "player_id (heap l ! b) = x"
      by (auto simp: teamIds_def)
    have "findPlayer l (player_id (heap l ! a)) = Some a"
      and "findPlayer l (player_id (heap l ! b)) = Some b"
      and ta: "player_team (heap l ! a) = Some Blue"
      and tb: "player_team (heap l ! b) = Some Red"
      using assms a(1) b(1) unfolding lobbyInv_def by blast+
    then have "a = b" using a(2) b(2) by simp
    then show False using ta tb by simp
  qed
  then show ?thesis
    using assms by (auto simp: teamsConsistent_def lobbyInv_def)
qed

lemma reachable_lobbyInv: "reachable l \<Longrightarrow> lobbyInv l"
proof (induction rule: reachable.induct)
  case (create c sock rnd l h rnd')
  then show ?case by (rule lobbyInv_createLobby)
next
  case (join l name sock rnd l' i rnd')
  then show ?case using lobbyInv_joinLobby by blast
next
  case (leave l i l' w)
  then show ?case
    using lobbyInv_leaveLobby [of l i l' w] lobbyInv_leaveLobby_unknown [of l i l' w]
    by (cases "findPlayer l i") auto
next
  case (selectTeam l i t l')
  then show ?case using lobbyInv_selectTeam by blast
next
  case (toggleReady l i l')
  then show ?case using sameTeams_toggleReady sameTeams_lobbyInv by blast
next
  case (updateGameSettings l i p l')
  then show ?case using sameTeams_updateGameSettings sameTeams_lobbyInv by blast
next
  case (updatePlayerSocket l i sock)
  then show ?case using sameTeams_updatePlayerSocket sameTeams_lobbyInv by blast
next
  case (markPlayerDisconnected l sock)
  then show ?case using sameTeams_markPlayerDisconnected sameTeams_lobbyInv by blast
next
  case (startGame l sel r l' sel')
  then show ?case using sameTeams_startGame sameTeams_lobbyInv by blast
next
  case (startRound l n sel rnd r l' sel' rnd')
  then show ?case using sameTeams_startRound sameTeams_lobbyInv by blast
next
  case (submitAnswer l i a l')
  then show ?case using sameTeams_submitAnswer sameTeams_lobbyInv by blast
next
  case (markPlayerReady l i l')
  then show ?case using sameTeams_markPlayerReady sameTeams_lobbyInv by blast
next
  case (prepareVotingOptions l rnd os l' rnd')
  then show ?case using sameTeams_prepareVotingOptions sameTeams_lobbyInv by blast
next
  case (submitVote l i x l')
  then show ?case using sameTeams_submitVote sameTeams_lobbyInv by blast
next
  case (calculateRoundResults l res l')
  then show ?case using sameTeams_calculateRoundResults sameTeams_lobbyInv by blast
next
  case (finishGame l res l')
  then show ?case using sameTeams_finishGame sameTeams_lobbyInv by blast
next
  case (resetGame l)
  then show ?case using sameTeams_resetGame sameTeams_lobbyInv by blast
next
  case (nextRoundNumber l)
  then show ?case using sameTeams_nextRoundNumber sameTeams_lobbyInv by blast
qed

lemma teamIds_found:
  "lobbyInv l \<Longrightarrow> pid \<in> teamIds u l \<Longrightarrow> findPlayer l pid \<noteq> None"
  by (auto simp: teamIds_def lobbyInv_def)

text \<open>
  C8. In every reachable lobby state no player id is in both team lists and every player of
  a team list has that team set. A successful \<open>selectTeam\<close> leaves the player's id in the
  chosen team's list and not in the other one; after \<open>leaveLobby\<close> the departed player's id
  is in no team list of the lobby that remains.
\<close>

theorem reachable_teamsConsistent:
  assumes "reachable l"
  shows "teamsConsistent l
       \<and> (\<forall>pid t l'. selectTeam l pid t = Inr l'
             \<longrightarrow> pid \<in> teamIds t l' \<and> pid \<notin> teamIds (opposite t) l')
       \<and> (\<forall>pid l' w. leaveLobby l pid = (Some l', w)
             \<longrightarrow> pid \<notin> teamIds Blue l' \<and> pid \<notin> teamIds Red l')"
proof (intro conjI allI impI)
  have inv: "lobbyInv l" using assms by (rule reachable_lobbyInv)
  then show "teamsConsistent l" by (rule lobbyInv_teamsConsistent)
  {
    fix pid t l' assume sel: "selectTeam l pid t = Inr l'"
    then have inv': "lobbyInv l'" and mem: "pid \<in> teamIds t l'"
      using lobbyInv_selectTeam [OF inv] by blast+
    then have "teamIds Blue l' \<inter> teamIds Red l' = {}"
      using lobbyInv_teamsConsistent by (simp add: teamsConsistent_def)
    then have "pid \<notin> teamIds (opposite t) l'"
      using mem by (cases t) auto
    with mem show "pid \<in> teamIds t l'" and "pid \<notin> teamIds (opposite t) l'" by simp_all
  }
  {
    fix pid l' w assume leave: "leaveLobby l pid = (Some l', w)"
    have "pid \<notin> teamIds u l'" for u
    proof (cases "findPlayer l pid")
      case None
      then have "l' = l" using leave by (intro lobbyInv_leaveLobby_unknown)
      then show ?thesis using None teamIds_found [OF inv] by blast
    next
      case (Some a)
      then show ?thesis using lobbyInv_leaveLobby [OF inv leave] by simp
    qed
    then show "pid \<notin> teamIds Blue l'" and "pid \<notin> teamIds Red l'" by simp_all
  }
qed

theorem reachable_teamsConsistent_witness:
  "\<exists>l0 l1 i l2 l3.
      l0 = fst (createLobby ''ABC123'' ''s0'' (\<lambda>n. 0))
    \<and> joinLobby l0 ''Ana'' ''s1'' (\<lambda>n. 0) = Inr (l1, i, \<lambda>n. 0)
    \<and> selectTeam l1 i Blue = Inr l2
    \<and> selectTeam l2 i Red = Inr l3
    \<and> teamsConsistent l3 \<and> i \<in> teamIds Red l3 \<and> i \<notin> teamIds Blue l3"
proof -
  define l0 where "l0 = fst (createLobby ''ABC123'' ''s0'' (\<lambda>n. 0))"
  define i where "i = fst (generateUUID (\<lambda>n. 0))"
  define ana where "ana = \<lparr>player_id = i, player_name = ''Ana'', player_team = None, isHost = False,
                           socketId = ''s1'', score = 0, isReady = False, isConnected = True\<rparr>"
  define l1 where "l1 = l0\<lparr>heap := [ana], players := [0]\<rparr>"
  define l2 where "l2 = l1\<lparr>heap := [ana\<lparr>player_team := Some Blue\<rparr>], teams_blue := [0]\<rparr>"
  define l3 where "l3 = l2\<lparr>teams_blue := [], heap := [ana\<lparr>player_team := Some Red\<rparr>],
                          teams_red := [0]\<rparr>"
  have rest: "snd (generateUUID (\<lambda>n. 0)) = (\<lambda>n. 0)"
  proof -
    have "\<And>cs. snd (replaceXY cs (\<lambda>n. 0)) = (\<lambda>n. 0)"
    proof -
      fix cs show "snd (replaceXY cs (\<lambda>n. 0)) = (\<lambda>n. 0)"
        by (induction cs) (simp_all add: split_beta random_def Let_def)
    qed
    then show ?thesis unfolding generateUUID_def .
  qed
  have l0: "l0 = \<lparr>code = ''ABC123'', hostId = i, hostSocketId = ''s0'', players = [],
                  teams_blue = [], teams_red = [], status = StatusWaiting, gameState = None,
                  settings = DEFAULT_GAME_SETTINGS, heap = []\<rparr>"
    by (simp add: l0_def createLobby_def split_beta i_def)
  have r0: "reachable l0"
    unfolding l0_def
    by (rule reachable.create [of "''ABC123''" "''s0''" "\<lambda>n. 0" _
          "fst (snd (createLobby ''ABC123'' ''s0'' (\<lambda>n. 0)))"
          "snd (snd (createLobby ''ABC123'' ''s0'' (\<lambda>n. 0)))"]) simp
  have j: "joinLobby l0 ''Ana'' ''s1'' (\<lambda>n. 0) = Inr (l1, i, \<lambda>n. 0)"
    by (simp add: joinLobby_def l0 l1_def ana_def i_def split_beta rest
          MAX_PLAYERS_PER_LOBBY_def)
  have r1: "reachable l1" using r0 j by (rule reachable.join)
  have s1: "selectTeam l1 i Blue = Inr l2"
    by (simp add: selectTeam_def getPlayer_def findPlayer_def l1_def l0 l2_def ana_def
          getTeam_def setTeam_def)
  have r2: "reachable l2" using r1 s1 by (rule reachable.selectTeam)
  have s2: "selectTeam l2 i Red = Inr l3"
    by (simp add: selectTeam_def getPlayer_def findPlayer_def l1_def l0 l2_def l3_def ana_def
          getTeam_def setTeam_def)
  have "teamsConsistent l3"
    using reachable_teamsConsistent [OF reachable.selectTeam [OF r2 s2]] by simp
  moreover have "i \<in> teamIds Red l3 \<and> i \<notin> teamIds (opposite Red) l3"
    using reachable_teamsConsistent [OF r2] s2 by blast
  ultimately show ?thesis
    using j s1 s2 l0_def by auto
qed

end
